theory Spec2Isabelle
  imports Complex_Main "HOL-Library.Multiset"
begin

section \<open>gosearch: search godoc.org, pick a package, run \<open>go get\<close>\<close>

text \<open>
  A shallow embedding of \<open>main.go\<close>. The program is one function, \<open>run\<close>, that talks to
  the network, the terminal and two subprocesses. Everything \<open>run\<close> takes from outside
  (flag values, the HTTP response, the lines on standard input, the answers of the
  subprocesses, the library's sort) is an explicit input of the model, and everything it
  does to the outside is an event of a trace.
\<close>

subsection \<open>Data\<close>

text \<open>
  \<open>type pack struct\<close>. Go's \<open>int\<close> fields are only compared, never added to, so they are
  \<open>int\<close> here. \<open>Score\<close> is a \<open>float64\<close> that \<open>run\<close> never reads; it is kept as a \<open>real\<close>.
\<close>

record pack =
  Name :: string
  Path :: string
  ImportCount :: int
  Synopsis :: string
  Fork :: bool
  Stars :: int
  Score :: real

text \<open>
  The variables bound by the \<open>flag\<close> package, as they stand after \<open>flag.Parse()\<close>.
  \<open>goflags\<close> is a slice that stays \<open>nil\<close> (\<open>None\<close>) unless \<open>-goflags\<close> was given, and
  is what \<open>stringsFlag.Set\<close> made of the flag's value otherwise;
  \<open>arg0\<close> is \<open>flag.Arg(0)\<close>, the empty string when there is no positional argument.
\<close>

record flags =
  limit :: int
  forks :: bool
  apps :: bool
  minStars :: int
  minImports :: int
  showInstalled :: bool
  inPath :: bool
  goflags :: "string list option"
  arg0 :: string

subsection \<open>Library functions used by the filter\<close>

text \<open>\<open>strings.Contains(s, substr)\<close>: some suffix of \<open>s\<close> starts with \<open>substr\<close>.\<close>

fun has_prefix :: "string \<Rightarrow> string \<Rightarrow> bool" where
  "has_prefix s [] = True"
| "has_prefix [] (c # cs) = False"
| "has_prefix (d # ds) (c # cs) = (d = c \<and> has_prefix ds cs)"

fun Contains :: "string \<Rightarrow> string \<Rightarrow> bool" where
  "Contains [] substr = (substr = [])"
| "Contains (d # ds) substr = (has_prefix (d # ds) substr \<or> Contains ds substr)"

text \<open>\<open>%d\<close> of a Go \<open>int\<close>.\<close>

fun show_nat :: "nat \<Rightarrow> string" where
  "show_nat n =
     (if n < 10 then [''0123456789'' ! n]
      else show_nat (n div 10) @ [''0123456789'' ! (n mod 10)])"

declare show_nat.simps [simp del]

definition show_int :: "int \<Rightarrow> string" where
  "show_int k = (if k < 0 then CHR ''-'' # show_nat (nat (- k)) else show_nat (nat k))"

subsection \<open>The two sort orders\<close>

text \<open>The \<open>Less\<close> methods of \<open>packsByStars\<close> and \<open>packsByImports\<close>, on elements.\<close>

definition packsByStars_Less :: "pack \<Rightarrow> pack \<Rightarrow> bool" where
  "packsByStars_Less a b = (Stars a > Stars b)"

definition packsByImports_Less :: "pack \<Rightarrow> pack \<Rightarrow> bool" where
  "packsByImports_Less a b = (ImportCount a > ImportCount b)"

text \<open>
  \<open>sort.Sort\<close> belongs to the standard library, and its result on equal keys depends on
  the library's version. The model takes the function as an input; \<open>sorts_by\<close> is what the
  library promises of one call: the elements are rearranged (only \<open>Swap\<close> moves them) and
  no later element is \<open>Less\<close> than an earlier one.
\<close>

type_synonym sorter = "(pack \<Rightarrow> pack \<Rightarrow> bool) \<Rightarrow> pack list \<Rightarrow> pack list"

definition sorts_by :: "(pack \<Rightarrow> pack \<Rightarrow> bool) \<Rightarrow> pack list \<Rightarrow> pack list \<Rightarrow> bool" where
  "sorts_by lt xs ys = (mset ys = mset xs \<and> sorted_wrt (\<lambda>a b. \<not> lt b a) ys)"

text \<open>The \<open>switch\<close> of lines 60 to 65.\<close>

definition sort_matches :: "sorter \<Rightarrow> flags \<Rightarrow> pack list \<Rightarrow> pack list" where
  "sort_matches srt fl matches =
     (if \<not> apps fl then srt packsByImports_Less matches
      else srt packsByStars_Less matches)"

text \<open>An insertion sort, one function that keeps the library's promise.\<close>

fun insert_by :: "(pack \<Rightarrow> pack \<Rightarrow> bool) \<Rightarrow> pack \<Rightarrow> pack list \<Rightarrow> pack list" where
  "insert_by lt x [] = [x]"
| "insert_by lt x (y # ys) = (if lt y x then y # insert_by lt x ys else x # y # ys)"

fun insertion_sort :: sorter where
  "insertion_sort lt [] = []"
| "insertion_sort lt (x # xs) = insert_by lt x (insertion_sort lt xs)"

subsection \<open>The filter loop\<close>

text \<open>
  One row of the table: the arguments of the \<open>Fprintf\<close> on line 97, in order
  (\<open>i\<close>, \<open>p.Stars\<close>, \<open>p.ImportCount\<close>, \<open>path\<close>, \<open>p.Synopsis\<close>).
\<close>

type_synonym row = "int \<times> int \<times> int \<times> string \<times> string"

definition row_index :: "row \<Rightarrow> int" where
  "row_index r = fst r"

text \<open>
  The variables the loop of lines 71 to 102 updates: the counter \<open>i\<close>, the rows written
  to the tabwriter \<open>w\<close>, the slice \<open>packs\<close>, and the paths \<open>go list\<close> was run on.
\<close>

record loop_state =
  var_i :: int
  var_w :: "row list"
  var_packs :: "pack list"
  go_list_calls :: "string list"

definition loop_init :: loop_state where
  "loop_init = \<lparr>var_i = 0, var_w = [], var_packs = [], go_list_calls = []\<rparr>"

text \<open>
  The body from \<open>i++\<close> on, for a hit that passed every \<open>continue\<close>. \<open>installed path\<close> says
  whether \<open>exec.Command("go", "list", path).Run()\<close> returned \<open>nil\<close>; \<open>&&\<close> runs the command
  only when \<open>-installed\<close> is set.
\<close>

definition loop_add :: "flags \<Rightarrow> (string \<Rightarrow> bool) \<Rightarrow> pack \<Rightarrow> loop_state \<Rightarrow> loop_state" where
  "loop_add fl installed p st =
     (let i = var_i st + 1;
          path = (if showInstalled fl \<and> installed (Path p) then ''*'' @ Path p else Path p)
      in \<lparr>var_i = i,
          var_w = var_w st @ [(i, Stars p, ImportCount p, path, Synopsis p)],
          var_packs = var_packs st @ [p],
          go_list_calls = go_list_calls st @ (if showInstalled fl then [Path p] else [])\<rparr>)"

fun filter_loop ::
  "flags \<Rightarrow> string \<Rightarrow> (string \<Rightarrow> bool) \<Rightarrow> pack list \<Rightarrow> loop_state \<Rightarrow> loop_state" where
  "filter_loop fl query installed [] st = st"
| "filter_loop fl query installed (p # ps) st =
     (if \<not> forks fl \<and> Fork p then filter_loop fl query installed ps st
      else if apps fl \<and> Name p \<noteq> ''main'' then filter_loop fl query installed ps st
      else if \<not> apps fl \<and> Name p = ''main'' then filter_loop fl query installed ps st
      else if Stars p < minStars fl then filter_loop fl query installed ps st
      else if ImportCount p < minImports fl then filter_loop fl query installed ps st
      else if inPath fl \<and> \<not> Contains (Path p) query then filter_loop fl query installed ps st
      else let st' = loop_add fl installed p st
           in if limit fl > 0 \<and> int (length (var_packs st')) \<ge> limit fl then st'
              else filter_loop fl query installed ps st')"

text \<open>Sorting, then the loop from its initial state: lines 60 to 102.\<close>

definition filter_rank ::
  "sorter \<Rightarrow> (string \<Rightarrow> bool) \<Rightarrow> flags \<Rightarrow> string \<Rightarrow> pack list \<Rightarrow> loop_state" where
  "filter_rank srt installed fl query matches =
     filter_loop fl query installed (sort_matches srt fl matches) loop_init"

subsection \<open>Library functions used by the selector and the installer\<close>

text \<open>
  \<open>strings.TrimSpace\<close> removes the white space of Unicode at both ends. A string is
  its bytes, so a white-space character is one of six ASCII bytes or the UTF-8 encoding,
  two or three bytes long, of one of the others (U+0085, U+00A0, U+1680, U+2000 to
  U+200A, U+2028, U+2029, U+202F, U+205F, U+3000).
\<close>

definition is_space1 :: "char \<Rightarrow> bool" where
  "is_space1 a = (a \<in> set [CHR 0x09, CHR 0x0A, CHR 0x0B, CHR 0x0C, CHR 0x0D, CHR 0x20])"

definition is_space2 :: "char \<Rightarrow> char \<Rightarrow> bool" where
  "is_space2 a b = (a = CHR 0xC2 \<and> (b = CHR 0x85 \<or> b = CHR 0xA0))"

definition is_space3 :: "char \<Rightarrow> char \<Rightarrow> char \<Rightarrow> bool" where
  "is_space3 a b c =
     ((a = CHR 0xE1 \<and> b = CHR 0x9A \<and> c = CHR 0x80) \<or>
      (a = CHR 0xE2 \<and> b = CHR 0x80 \<and>
         c \<in> set [CHR 0x80, CHR 0x81, CHR 0x82, CHR 0x83, CHR 0x84, CHR 0x85, CHR 0x86,
                  CHR 0x87, CHR 0x88, CHR 0x89, CHR 0x8A, CHR 0xA8, CHR 0xA9, CHR 0xAF]) \<or>
      (a = CHR 0xE2 \<and> b = CHR 0x81 \<and> c = CHR 0x9F) \<or>
      (a = CHR 0xE3 \<and> b = CHR 0x80 \<and> c = CHR 0x80))"

text \<open>White space removed from the front, character by character.\<close>

fun trim_left :: "string \<Rightarrow> string" where
  "trim_left (a # b # c # cs) =
     (if is_space1 a then trim_left (b # c # cs)
      else if is_space2 a b then trim_left (c # cs)
      else if is_space3 a b c then trim_left cs
      else a # b # c # cs)"
| "trim_left [a, b] =
     (if is_space1 a then trim_left [b] else if is_space2 a b then [] else [a, b])"
| "trim_left [a] = (if is_space1 a then [] else [a])"
| "trim_left [] = []"

text \<open>
  The same from the back, on the reversed string: the last character of the string is
  the first byte here, so the bytes of a longer encoding come in reverse.
\<close>

fun trim_left_rev :: "string \<Rightarrow> string" where
  "trim_left_rev (a # b # c # cs) =
     (if is_space1 a then trim_left_rev (b # c # cs)
      else if is_space2 b a then trim_left_rev (c # cs)
      else if is_space3 c b a then trim_left_rev cs
      else a # b # c # cs)"
| "trim_left_rev [a, b] =
     (if is_space1 a then trim_left_rev [b] else if is_space2 b a then [] else [a, b])"
| "trim_left_rev [a] = (if is_space1 a then [] else [a])"
| "trim_left_rev [] = []"

definition TrimSpace :: "string \<Rightarrow> string" where
  "TrimSpace s = rev (trim_left_rev (rev (trim_left s)))"

text \<open>
  \<open>strconv.Atoi\<close> where \<open>int\<close> has 64 bits: an optional sign, then one or more decimal
  digits, and a value from \<open>-2^63\<close> to \<open>2^63 - 1\<close>. \<open>None\<close> is a returned error, of syntax
  or of range.
\<close>

definition digit_value :: "char \<Rightarrow> nat option" where
  "digit_value c = map_of (zip ''0123456789'' [0, 1, 2, 3, 4, 5, 6, 7, 8, 9]) c"

fun digits_value :: "string \<Rightarrow> nat \<Rightarrow> nat option" where
  "digits_value [] n = Some n"
| "digits_value (c # cs) n =
     (case digit_value c of None \<Rightarrow> None | Some d \<Rightarrow> digits_value cs (n * 10 + d))"

definition signed_value :: "bool \<Rightarrow> nat \<Rightarrow> int option" where
  "signed_value neg n =
     (if neg then (if n \<le> 2 ^ 63 then Some (- int n) else None)
      else (if n < 2 ^ 63 then Some (int n) else None))"

fun Atoi :: "string \<Rightarrow> int option" where
  "Atoi [] = None"
| "Atoi (c # cs) =
     (let neg = (c = CHR ''-'');
          ds = (if c = CHR ''-'' \<or> c = CHR ''+'' then cs else c # cs)
      in if ds = [] then None
         else (case digits_value ds 0 of
                 None \<Rightarrow> None
               | Some n \<Rightarrow> signed_value neg n))"

text \<open>\<open>strings.Join(elems, sep)\<close>.\<close>

fun Join :: "string list \<Rightarrow> string \<Rightarrow> string" where
  "Join [] sep = []"
| "Join [a] sep = a"
| "Join (a # b # bs) sep = a @ sep @ Join (b # bs) sep"

subsection \<open>Decoding the response\<close>

text \<open>
  A JSON value as \<open>encoding/json\<close> reads it. A number is kept apart by its literal: one
  with no fraction and no exponent (\<open>JInt\<close>), the only kind that decodes into a Go
  \<open>int\<close>, and any other (\<open>JFrac\<close>). An object keeps its members in order.
\<close>

datatype json =
  JNull
| JBool bool
| JInt int
| JFrac real
| JString string
| JArray "json list"
| JObject "(string \<times> json) list"

text \<open>The errors \<open>run\<close> prints with \<open>fmt.Println(err)\<close>.\<close>

datatype error =
  TransportError string
| ErrorsNew string
| DecodeError
| RunError string

text \<open>
  The fields of \<open>pack\<close> with their struct tags, as lists of key and value. Six tags have
  the key \<open>json\<close>; the tag of \<open>ImportCount\<close>, \<open>bool:"import_count"\<close>, has the key \<open>bool\<close>.
  (An older copy of the file has \<open>json:"import_count\<close> there, with no closing quote,
  which the package \<open>reflect\<close> does not read as a tag: no key at all.)
\<close>

datatype field = FName | FPath | FImportCount | FSynopsis | FFork | FStars | FScore

definition pack_fields :: "field list" where
  "pack_fields = [FName, FPath, FImportCount, FSynopsis, FFork, FStars, FScore]"

fun go_name :: "field \<Rightarrow> string" where
  "go_name FName = ''Name''"
| "go_name FPath = ''Path''"
| "go_name FImportCount = ''ImportCount''"
| "go_name FSynopsis = ''Synopsis''"
| "go_name FFork = ''Fork''"
| "go_name FStars = ''Stars''"
| "go_name FScore = ''Score''"

fun struct_tag :: "field \<Rightarrow> (string \<times> string) list" where
  "struct_tag FName = [(''json'', ''name,omitempty'')]"
| "struct_tag FPath = [(''json'', ''path'')]"
| "struct_tag FImportCount = [(''bool'', ''import_count'')]"
| "struct_tag FSynopsis = [(''json'', ''synopsis,omitempty'')]"
| "struct_tag FFork = [(''json'', ''fork,omitempty'')]"
| "struct_tag FStars = [(''json'', ''stars,omitempty'')]"
| "struct_tag FScore = [(''json'', ''score,omitempty'')]"

text \<open>
  The key \<open>encoding/json\<close> gives a field: the name in the value of the tag's \<open>json\<close>
  key, up to the first comma, and the Go name of the field when there is no such key or
  the name is empty. A value of \<open>-\<close> hides the field. (A name with characters that
  \<open>encoding/json\<close> refuses is ignored too; the tags of \<open>pack\<close> have none.)
\<close>

definition json_key :: "field \<Rightarrow> string option" where
  "json_key f =
     (case map_of (struct_tag f) ''json'' of
        None \<Rightarrow> Some (go_name f)
      | Some v \<Rightarrow>
          if v = ''-'' then None
          else if takeWhile (\<lambda>c. c \<noteq> CHR '','') v = [] then Some (go_name f)
          else Some (takeWhile (\<lambda>c. c \<noteq> CHR '','') v))"

text \<open>
  Keys are matched exactly, and failing that without regard to case. Two characters
  outside ASCII fold to ASCII letters: U+017F to \<open>s\<close> and U+212A to \<open>k\<close>.
\<close>

definition to_lower :: "char \<Rightarrow> char" where
  "to_lower c =
     (case map_of (zip ''ABCDEFGHIJKLMNOPQRSTUVWXYZ'' ''abcdefghijklmnopqrstuvwxyz'') c of
        None \<Rightarrow> c
      | Some l \<Rightarrow> l)"

fun fold_name :: "string \<Rightarrow> string" where
  "fold_name (a # b # c # cs) =
     (if a = CHR 0xE2 \<and> b = CHR 0x84 \<and> c = CHR 0xAA then CHR ''k'' # fold_name cs
      else if a = CHR 0xC5 \<and> b = CHR 0xBF then CHR ''s'' # fold_name (c # cs)
      else to_lower a # fold_name (b # c # cs))"
| "fold_name [a, b] =
     (if a = CHR 0xC5 \<and> b = CHR 0xBF then ''s'' else to_lower a # fold_name [b])"
| "fold_name [a] = [to_lower a]"
| "fold_name [] = []"

definition key_matches :: "string \<Rightarrow> field \<Rightarrow> bool" where
  "key_matches key f = (json_key f = Some key)"

definition key_folds :: "string \<Rightarrow> field \<Rightarrow> bool" where
  "key_folds key f =
     (case json_key f of None \<Rightarrow> False | Some n \<Rightarrow> fold_name n = fold_name key)"

definition lookup_field :: "string \<Rightarrow> field option" where
  "lookup_field key =
     (case find (key_matches key) pack_fields of
        Some f \<Rightarrow> Some f
      | None \<Rightarrow> find (key_folds key) pack_fields)"

text \<open>
  One member's value stored into its field. \<open>null\<close> leaves the field as it is; a value
  of the wrong kind, or an integer outside 64 bits, makes \<open>Decode\<close> return an error.
\<close>

definition fits_int :: "int \<Rightarrow> bool" where
  "fits_int n = (- (2 ^ 63) \<le> n \<and> n < 2 ^ 63)"

definition decode_string :: "json \<Rightarrow> string \<Rightarrow> error + string" where
  "decode_string v old =
     (case v of JNull \<Rightarrow> Inr old | JString s \<Rightarrow> Inr s | _ \<Rightarrow> Inl DecodeError)"

definition decode_bool :: "json \<Rightarrow> bool \<Rightarrow> error + bool" where
  "decode_bool v old =
     (case v of JNull \<Rightarrow> Inr old | JBool b \<Rightarrow> Inr b | _ \<Rightarrow> Inl DecodeError)"

definition decode_int :: "json \<Rightarrow> int \<Rightarrow> error + int" where
  "decode_int v old =
     (case v of
        JNull \<Rightarrow> Inr old
      | JInt n \<Rightarrow> if fits_int n then Inr n else Inl DecodeError
      | _ \<Rightarrow> Inl DecodeError)"

definition decode_float64 :: "json \<Rightarrow> real \<Rightarrow> error + real" where
  "decode_float64 v old =
     (case v of
        JNull \<Rightarrow> Inr old
      | JInt n \<Rightarrow> Inr (of_int n)
      | JFrac r \<Rightarrow> Inr r
      | _ \<Rightarrow> Inl DecodeError)"

fun set_field :: "field \<Rightarrow> json \<Rightarrow> pack \<Rightarrow> error + pack" where
  "set_field FName v p = map_sum id (\<lambda>x. p\<lparr>Name := x\<rparr>) (decode_string v (Name p))"
| "set_field FPath v p = map_sum id (\<lambda>x. p\<lparr>Path := x\<rparr>) (decode_string v (Path p))"
| "set_field FImportCount v p =
     map_sum id (\<lambda>x. p\<lparr>ImportCount := x\<rparr>) (decode_int v (ImportCount p))"
| "set_field FSynopsis v p =
     map_sum id (\<lambda>x. p\<lparr>Synopsis := x\<rparr>) (decode_string v (Synopsis p))"
| "set_field FFork v p = map_sum id (\<lambda>x. p\<lparr>Fork := x\<rparr>) (decode_bool v (Fork p))"
| "set_field FStars v p = map_sum id (\<lambda>x. p\<lparr>Stars := x\<rparr>) (decode_int v (Stars p))"
| "set_field FScore v p = map_sum id (\<lambda>x. p\<lparr>Score := x\<rparr>) (decode_float64 v (Score p))"

text \<open>The members of one object, in order; a key with no field is skipped.\<close>

fun decode_members :: "(string \<times> json) list \<Rightarrow> pack \<Rightarrow> error + pack" where
  "decode_members [] p = Inr p"
| "decode_members ((key, v) # kvs) p =
     (case lookup_field key of
        None \<Rightarrow> decode_members kvs p
      | Some f \<Rightarrow>
          (case set_field f v p of
             Inl e \<Rightarrow> Inl e
           | Inr p' \<Rightarrow> decode_members kvs p'))"

definition zero_pack :: pack where
  "zero_pack =
     \<lparr>Name = [], Path = [], ImportCount = 0, Synopsis = [], Fork = False, Stars = 0, Score = 0\<rparr>"

fun decode_pack :: "json \<Rightarrow> error + pack" where
  "decode_pack JNull = Inr zero_pack"
| "decode_pack (JObject kvs) = decode_members kvs zero_pack"
| "decode_pack v = Inl DecodeError"

fun decode_packs :: "json list \<Rightarrow> error + pack list" where
  "decode_packs [] = Inr []"
| "decode_packs (v # vs) =
     (case decode_pack v of
        Inl e \<Rightarrow> Inl e
      | Inr p \<Rightarrow> (case decode_packs vs of Inl e \<Rightarrow> Inl e | Inr ps \<Rightarrow> Inr (p # ps)))"

text \<open>
  The anonymous \<open>struct{ Results []pack }\<close> of \<open>queryGodoc\<close>: its one field has no tag,
  so its key is \<open>Results\<close>, in any case. A member with that key replaces the slice.
\<close>

fun decode_Results :: "json \<Rightarrow> pack list \<Rightarrow> error + pack list" where
  "decode_Results JNull old = Inr old"
| "decode_Results (JArray vs) old = decode_packs vs"
| "decode_Results v old = Inl DecodeError"

fun decode_results_members :: "(string \<times> json) list \<Rightarrow> pack list \<Rightarrow> error + pack list" where
  "decode_results_members [] res = Inr res"
| "decode_results_members ((key, v) # kvs) res =
     (if fold_name key = fold_name ''Results''
      then (case decode_Results v res of
              Inl e \<Rightarrow> Inl e
            | Inr res' \<Rightarrow> decode_results_members kvs res')
      else decode_results_members kvs res)"

fun Decode :: "json \<Rightarrow> error + pack list" where
  "Decode JNull = Inr []"
| "Decode (JObject kvs) = decode_results_members kvs []"
| "Decode v = Inl DecodeError"

text \<open>
  What \<open>http.Get\<close> returns with a \<open>nil\<close> error. \<open>Body\<close> is \<open>None\<close> when the body does not
  start with a JSON value.
\<close>

record response =
  StatusCode :: int
  Status :: string
  Body :: "json option"

text \<open>
  \<open>queryGodoc\<close>. \<open>http_Get q\<close> stands for the call of \<open>http.Get\<close> on the search URL
  built from \<open>q\<close>.
\<close>

definition queryGodoc :: "(string \<Rightarrow> error + response) \<Rightarrow> string \<Rightarrow> error + pack list" where
  "queryGodoc http_Get q =
     (case http_Get q of
        Inl err \<Rightarrow> Inl err
      | Inr resp \<Rightarrow>
          if StatusCode resp \<noteq> 200 then Inl (ErrorsNew (''godoc: '' @ Status resp))
          else (case Body resp of
                  None \<Rightarrow> Inl DecodeError
                | Some v \<Rightarrow> Decode v))"

subsection \<open>The terminal and the subprocesses\<close>

text \<open>
  One call of \<open>reader.ReadString('\n')\<close>: a line, with its newline, and a \<open>nil\<close> error,
  or an error (the end of the input is one). Standard input is the list of the calls'
  results in order; once the list is used up every further call returns an error, as
  at the end of a file.
\<close>

datatype read = Line string | ReadErr

fun ReadString :: "read list \<Rightarrow> read \<times> read list" where
  "ReadString [] = (ReadErr, [])"
| "ReadString (r # rs) = (r, rs)"

text \<open>
  What \<open>run\<close> does to the outside, in order. \<open>Flush rows\<close> is \<open>w.Flush()\<close>, which writes
  the header and the rows as a table; the columns' alignment is the tabwriter's.
\<close>

datatype event =
  Print string
| Println string
| PrintlnError error
| Fprintf_Stderr string
| PrintDefaults
| Flush "row list"
| GoList string
| ReadStdin read
| CmdRun string "string list"

text \<open>
  Everything \<open>run\<close> takes from outside, apart from the flags: the library's sort, the
  answer of \<open>http.Get\<close>, whether \<open>go list\<close> finds a path, what \<open>exec.LookPath("go")\<close>
  finds, the error of the install command's \<open>Run\<close> (\<open>None\<close> for \<open>nil\<close>) and standard input.
\<close>

record world =
  sort_Sort :: sorter
  http_Get :: "string \<Rightarrow> error + response"
  go_list :: "string \<Rightarrow> bool"
  LookPath :: "string option"
  cmd_Run :: "string \<Rightarrow> string list \<Rightarrow> error option"
  stdin :: "read list"

text \<open>
  How \<open>run\<close> ends: it returns an exit status, it stays in the selector's loop for ever,
  or it indexes \<open>packs\<close> out of range.
\<close>

datatype outcome = Return int | NeverReturns | Panic

record result =
  status :: outcome
  trace :: "event list"

subsection \<open>The selector\<close>

text \<open>
  The loop of lines 115 to 133 over what is left of standard input, for \<open>n\<close> displayed
  entries. It ends with an accepted number (\<open>break\<close>), with \<open>return 0\<close>, or not at all: when
  the input is used up every read fails and the loop goes on printing its prompt and
  its complaint. The trace then stops after the first such round.
\<close>

datatype selection = Picked int | Declined | Spins

definition prompt :: event where
  "prompt = Print ''Install Package #: ''"

fun selector :: "nat \<Rightarrow> read list \<Rightarrow> selection \<times> event list \<times> read list" where
  "selector n [] =
     (Spins, [prompt, ReadStdin ReadErr, Print ''error reading from stdin''], [])"
| "selector n (ReadErr # rest) =
     (case selector n rest of
        (sel, tr, rest') \<Rightarrow>
          (sel, [prompt, ReadStdin ReadErr, Print ''error reading from stdin''] @ tr, rest'))"
| "selector n (Line input # rest) =
     (case Atoi (TrimSpace input) of
        None \<Rightarrow> (Declined, [prompt, ReadStdin (Line input)], rest)
      | Some packN \<Rightarrow>
          if packN < 1 \<or> packN > int n
          then (case selector n rest of
                  (sel, tr, rest') \<Rightarrow>
                    (sel,
                     [prompt, ReadStdin (Line input),
                      Println (''No entry for '' @ show_int packN)] @ tr,
                     rest'))
          else (Picked packN, [prompt, ReadStdin (Line input)], rest))"

subsection \<open>The installer\<close>

text \<open>Lines 145 to 147: the arguments of the install command.\<close>

definition install_args :: "string list \<Rightarrow> string \<Rightarrow> string list" where
  "install_args goflags' importPath = ([''get''] @ goflags') @ [importPath]"

text \<open>
  Lines 137 to 162, for the chosen path and what is left of standard input. The
  confirmation is one \<open>ReadString\<close> whose two results are dropped.
\<close>

definition installer :: "world \<Rightarrow> string list \<Rightarrow> string \<Rightarrow> read list \<Rightarrow> result" where
  "installer wd goflags' importPath rest =
     (case LookPath wd of
        None \<Rightarrow>
          \<lparr>status = Return 1,
           trace = [Println (''Installing '' @ importPath),
                    Println ''Could not find go binary in PATH'']\<rparr>
      | Some goBin \<Rightarrow>
          let args = install_args goflags' importPath;
              before = [Println (''Installing '' @ importPath),
                        Println (''Install command: '' @ goBin @ '' '' @ Join args '' ''),
                        Println ''Press enter to continue...'',
                        ReadStdin (fst (ReadString rest)),
                        CmdRun goBin args]
          in (case cmd_Run wd goBin args of
                None \<Rightarrow> \<lparr>status = Return 0, trace = before\<rparr>
              | Some err \<Rightarrow> \<lparr>status = Return 1, trace = before @ [PrintlnError err]\<rparr>))"

subsection \<open>The \<open>-goflags\<close> flag\<close>

definition isSpaceByte :: "char \<Rightarrow> bool" where
  "isSpaceByte c = (c = CHR '' '' \<or> c = CHR 0x09 \<or> c = CHR 0x0A \<or> c = CHR 0x0D)"

text \<open>
  The loop of \<open>splitQuotedFields\<close>, with the fields found so far. A field is a run of
  bytes that are not spaces, or what stands between two equal quotes; a quote with no
  partner is an error.
\<close>

function split_loop :: "string \<Rightarrow> string list \<Rightarrow> error + string list" where
  "split_loop s f =
     (case dropWhile isSpaceByte s of
        [] \<Rightarrow> Inr f
      | c # cs \<Rightarrow>
          if c = CHR 0x22 \<or> c = CHR 0x27
          then (if length (takeWhile (\<lambda>d. d \<noteq> c) cs) \<ge> length cs
                then Inl (ErrorsNew (''unterminated '' @ [c] @ '' string''))
                else split_loop (drop (length (takeWhile (\<lambda>d. d \<noteq> c) cs) + 1) cs)
                       (f @ [takeWhile (\<lambda>d. d \<noteq> c) cs]))
          else split_loop (dropWhile (\<lambda>d. \<not> isSpaceByte d) cs)
                 (f @ [c # takeWhile (\<lambda>d. \<not> isSpaceByte d) cs]))"
  by pat_completeness auto
termination
proof (relation "measure (\<lambda>(s, f). length s)")
  show "wf (measure (\<lambda>(s, f). length s))" by simp
next
  fix s :: string and f :: "string list" and c cs
  assume d: "dropWhile isSpaceByte s = c # cs"
  have "length (c # cs) \<le> length s"
    unfolding d [symmetric] by (rule length_dropWhile_le)
  then have l: "length cs < length s" by simp
  show "((drop (length (takeWhile (\<lambda>d. d \<noteq> c) cs) + 1) cs, f @ [takeWhile (\<lambda>d. d \<noteq> c) cs]), s, f)
      \<in> measure (\<lambda>(s, f). length s)"
    using l by simp
  have "length (dropWhile (\<lambda>d. \<not> isSpaceByte d) cs) \<le> length cs"
    by (rule length_dropWhile_le)
  then show "((dropWhile (\<lambda>d. \<not> isSpaceByte d) cs,
       f @ [c # takeWhile (\<lambda>d. \<not> isSpaceByte d) cs]), s, f) \<in> measure (\<lambda>(s, f). length s)"
    using l by simp
qed

declare split_loop.simps [simp del]

text \<open>
  \<open>splitQuotedFields\<close> returns a slice and an error: \<open>nil\<close> (\<open>None\<close>) with an error, and
  also when it found no field, since the slice starts \<open>nil\<close> and only \<open>append\<close> changes it.
\<close>

definition splitQuotedFields :: "string \<Rightarrow> string list option \<times> error option" where
  "splitQuotedFields s =
     (case split_loop s [] of
        Inl err \<Rightarrow> (None, Some err)
      | Inr f \<Rightarrow> (if f = [] then None else Some f, None))"

text \<open>
  \<open>stringsFlag.Set\<close>, called by \<open>flag.Parse\<close> when \<open>-goflags\<close> is given: the new value of
  the slice, which is never \<open>nil\<close>, and the error returned.
\<close>

definition stringsFlag_Set :: "string \<Rightarrow> string list option \<times> error option" where
  "stringsFlag_Set s =
     (case splitQuotedFields s of
        (None, err) \<Rightarrow> (Some [], err)
      | (Some f, err) \<Rightarrow> (Some f, err))"

subsection \<open>The program\<close>

text \<open>Lines 50 to 52: the default of \<open>goflags\<close>.\<close>

definition goflags_or_default :: "flags \<Rightarrow> string list" where
  "goflags_or_default fl = (case goflags fl of None \<Rightarrow> [''-u'', ''-v''] | Some g \<Rightarrow> g)"

text \<open>Lines 67 to 106: what reaches the terminal while the table is built and printed.\<close>

definition display :: "flags \<Rightarrow> loop_state \<Rightarrow> event list" where
  "display fl st =
     map GoList (go_list_calls st) @ [Flush (var_w st)] @
     (if showInstalled fl then [Println ''* = installed''] else [])"

text \<open>Lines 113 to 162: the selector, then the installer on the chosen entry.\<close>

definition select_install :: "world \<Rightarrow> string list \<Rightarrow> pack list \<Rightarrow> result" where
  "select_install wd goflags' packs =
     (case selector (length packs) (stdin wd) of
        (Spins, tr, rest) \<Rightarrow> \<lparr>status = NeverReturns, trace = tr\<rparr>
      | (Declined, tr, rest) \<Rightarrow> \<lparr>status = Return 0, trace = tr\<rparr>
      | (Picked packN, tr, rest) \<Rightarrow>
          if packN - 1 < 0 \<or> packN - 1 \<ge> int (length packs)
          then \<lparr>status = Panic, trace = tr\<rparr>
          else let r = installer wd goflags' (Path (packs ! nat (packN - 1))) rest
               in \<lparr>status = status r, trace = tr @ trace r\<rparr>)"

text \<open>\<open>run\<close>, from after \<open>flag.Parse()\<close>.\<close>

definition run :: "flags \<Rightarrow> world \<Rightarrow> result" where
  "run fl wd =
     (if arg0 fl = []
      then \<lparr>status = Return 1,
            trace = [Fprintf_Stderr ''Must provide search term.'', PrintDefaults]\<rparr>
      else (case queryGodoc (http_Get wd) (arg0 fl) of
              Inl err \<Rightarrow> \<lparr>status = Return 1, trace = [PrintlnError err]\<rparr>
            | Inr matches \<Rightarrow>
                let st = filter_rank (sort_Sort wd) (go_list wd) fl (arg0 fl) matches
                in if length (var_packs st) = 0
                   then \<lparr>status = Return 1,
                         trace = display fl st @ [Println ''No matches.'']\<rparr>
                   else let r = select_install wd (goflags_or_default fl) (var_packs st)
                        in \<lparr>status = status r, trace = display fl st @ trace r\<rparr>))"

subsection \<open>Notions used to state the properties\<close>

text \<open>A hit is kept exactly when none of the six \<open>continue\<close> statements fires.\<close>

definition kept :: "flags \<Rightarrow> string \<Rightarrow> pack \<Rightarrow> bool" where
  "kept fl query p =
     (\<not> (\<not> forks fl \<and> Fork p) \<and> \<not> (apps fl \<and> Name p \<noteq> ''main'') \<and>
      \<not> (\<not> apps fl \<and> Name p = ''main'') \<and> \<not> Stars p < minStars fl \<and>
      \<not> ImportCount p < minImports fl \<and> \<not> (inPath fl \<and> \<not> Contains (Path p) query))"

text \<open>What the filter needs of the library's sort on this input.\<close>

definition sort_Sort_ok :: "sorter \<Rightarrow> pack list \<Rightarrow> bool" where
  "sort_Sort_ok srt matches =
     (sorts_by packsByImports_Less matches (srt packsByImports_Less matches) \<and>
      sorts_by packsByStars_Less matches (srt packsByStars_Less matches))"

text \<open>A read after which the selector's loop goes round again, and what that round prints.\<close>

fun reprompts :: "nat \<Rightarrow> read \<Rightarrow> bool" where
  "reprompts n ReadErr = True"
| "reprompts n (Line input) =
     (case Atoi (TrimSpace input) of None \<Rightarrow> False | Some packN \<Rightarrow> packN < 1 \<or> packN > int n)"

fun round_events :: "read \<Rightarrow> event list" where
  "round_events ReadErr = [prompt, ReadStdin ReadErr, Print ''error reading from stdin'']"
| "round_events (Line input) =
     (case Atoi (TrimSpace input) of
        None \<Rightarrow> []
      | Some packN \<Rightarrow>
          [prompt, ReadStdin (Line input), Println (''No entry for '' @ show_int packN)])"

fun is_CmdRun :: "event \<Rightarrow> bool" where
  "is_CmdRun (CmdRun goBin args) = True"
| "is_CmdRun e = False"

text \<open>The table's row for the entry displayed in place \<open>k\<close>, counted from 0.\<close>

definition row_of :: "flags \<Rightarrow> (string \<Rightarrow> bool) \<Rightarrow> nat \<times> pack \<Rightarrow> row" where
  "row_of fl installed kp =
     (int (fst kp) + 1, Stars (snd kp), ImportCount (snd kp),
      (if showInstalled fl \<and> installed (Path (snd kp)) then ''*'' @ Path (snd kp)
       else Path (snd kp)),
      Synopsis (snd kp))"

subsection \<open>What the specification says of the filter\<close>

text \<open>The five predicates of section 4.2 of the specification, in its words.\<close>

definition predicate_a :: "flags \<Rightarrow> pack \<Rightarrow> bool" where
  "predicate_a fl p = (forks fl \<or> Fork p = False)"

definition predicate_b :: "flags \<Rightarrow> pack \<Rightarrow> bool" where
  "predicate_b fl p = (if apps fl then Name p = ''main'' else Name p \<noteq> ''main'')"

definition predicate_c :: "flags \<Rightarrow> pack \<Rightarrow> bool" where
  "predicate_c fl p = (Stars p \<ge> minStars fl)"

definition predicate_d :: "flags \<Rightarrow> pack \<Rightarrow> bool" where
  "predicate_d fl p = (ImportCount p \<ge> minImports fl)"

definition predicate_e :: "flags \<Rightarrow> string \<Rightarrow> pack \<Rightarrow> bool" where
  "predicate_e fl query p = (inPath fl = False \<or> (\<exists>u v. Path p = u @ query @ v))"

definition all_predicates :: "flags \<Rightarrow> string \<Rightarrow> pack \<Rightarrow> bool" where
  "all_predicates fl query p =
     (predicate_a fl p \<and> predicate_b fl p \<and> predicate_c fl p \<and> predicate_d fl p \<and>
      predicate_e fl query p)"

text \<open>The ranking key of the specification's ordering rule.\<close>

definition ranking_key :: "flags \<Rightarrow> pack \<Rightarrow> int" where
  "ranking_key fl p = (if apps fl then Stars p else ImportCount p)"

subsection \<open>A sample run\<close>

text \<open>
  Five hits, two of them forks and one a \<open>main\<close> package, and the flag defaults of
  lines 31 to 37 with the search term \<open>foo\<close>.
\<close>

definition mk_pack :: "string \<Rightarrow> string \<Rightarrow> int \<Rightarrow> bool \<Rightarrow> int \<Rightarrow> pack" where
  "mk_pack n p ic f s =
     \<lparr>Name = n, Path = p, ImportCount = ic, Synopsis = [], Fork = f, Stars = s, Score = 0\<rparr>"

definition sample_matches :: "pack list" where
  "sample_matches =
     [mk_pack ''foo'' ''example.com/foo'' 3 False 7,
      mk_pack ''foo'' ''b.io/foo'' 9 True 4,
      mk_pack ''main'' ''c.io/foo'' 8 False 5,
      mk_pack ''foolib'' ''d.io/foolib'' 6 False 2,
      mk_pack ''foo'' ''e.io/foo'' 1 True 1]"

definition default_flags :: flags where
  "default_flags =
     \<lparr>limit = 10, forks = False, apps = False, minStars = 1, minImports = 0,
      showInstalled = False, inPath = True, goflags = None, arg0 = ''foo''\<rparr>"

definition never_installed :: "string \<Rightarrow> bool" where
  "never_installed path = False"

text \<open>
  A sample world: the search answers with the five sample hits, \<open>go\<close> is found and the
  install succeeds. The response spells the import count \<open>ImportCount\<close>.
\<close>

definition pack_json :: "pack \<Rightarrow> json" where
  "pack_json p =
     JObject [(''name'', JString (Name p)), (''path'', JString (Path p)),
              (''ImportCount'', JInt (ImportCount p)), (''synopsis'', JString (Synopsis p)),
              (''fork'', JBool (Fork p)), (''stars'', JInt (Stars p)),
              (''score'', JFrac (Score p))]"

definition ok_response :: "json \<Rightarrow> response" where
  "ok_response v = \<lparr>StatusCode = 200, Status = ''200 OK'', Body = Some v\<rparr>"

definition sample_world :: "read list \<Rightarrow> world" where
  "sample_world input =
     \<lparr>sort_Sort = insertion_sort,
      http_Get = (\<lambda>q. Inr (ok_response (JObject [(''results'', JArray (map pack_json sample_matches))]))),
      go_list = never_installed,
      LookPath = Some ''/usr/bin/go'',
      cmd_Run = (\<lambda>goBin args. None),
      stdin = input\<rparr>"

section \<open>Properties of the filter\<close>

lemma has_prefix_iff: "has_prefix s t \<longleftrightarrow> (\<exists>v. s = t @ v)"
  by (induction s t rule: has_prefix.induct) auto

lemma Contains_iff: "Contains s t \<longleftrightarrow> (\<exists>u v. s = u @ t @ v)"
proof (induction s)
  case Nil
  then show ?case by simp
next
  case (Cons d ds)
  show ?case
  proof
    assume "Contains (d # ds) t"
    then consider "has_prefix (d # ds) t" | "Contains ds t" by auto
    then show "\<exists>u v. d # ds = u @ t @ v"
    proof cases
      case 1
      then obtain v where "d # ds = t @ v" by (auto simp: has_prefix_iff)
      then have "d # ds = [] @ t @ v" by simp
      then show ?thesis by blast
    next
      case 2
      then obtain u v where "ds = u @ t @ v" using Cons.IH by auto
      then have "d # ds = (d # u) @ t @ v" by simp
      then show ?thesis by blast
    qed
  next
    assume "\<exists>u v. d # ds = u @ t @ v"
    then obtain u v where uv: "d # ds = u @ t @ v" by auto
    show "Contains (d # ds) t"
    proof (cases u)
      case Nil
      with uv have "has_prefix (d # ds) t" by (auto simp: has_prefix_iff)
      then show ?thesis by simp
    next
      case (Cons e es)
      with uv have "ds = es @ t @ v" by simp
      then have "Contains ds t" using Cons.IH by blast
      then show ?thesis by simp
    qed
  qed
qed

lemma kept_iff_all_predicates: "kept fl query p \<longleftrightarrow> all_predicates fl query p"
  unfolding kept_def all_predicates_def predicate_a_def predicate_b_def predicate_c_def
    predicate_d_def predicate_e_def Contains_iff
  by auto

lemma filter_loop_skip:
  "\<not> kept fl query p \<Longrightarrow>
   filter_loop fl query installed (p # ps) st = filter_loop fl query installed ps st"
  unfolding kept_def by auto

lemma filter_loop_keep:
  "kept fl query p \<Longrightarrow>
   filter_loop fl query installed (p # ps) st =
     (let st' = loop_add fl installed p st
      in if limit fl > 0 \<and> int (length (var_packs st')) \<ge> limit fl then st'
         else filter_loop fl query installed ps st')"
  unfolding kept_def by auto

declare filter_loop.simps(2) [simp del]

lemma var_packs_loop_add [simp]: "var_packs (loop_add fl installed p st) = var_packs st @ [p]"
  by (simp add: loop_add_def Let_def)

lemma var_i_loop_add [simp]: "var_i (loop_add fl installed p st) = var_i st + 1"
  by (simp add: loop_add_def Let_def)

lemma row_index_loop_add [simp]:
  "map row_index (var_w (loop_add fl installed p st)) = map row_index (var_w st) @ [var_i st + 1]"
  by (simp add: loop_add_def Let_def row_index_def)

lemma filter_loop_stop:
  "kept fl query p \<Longrightarrow> limit fl > 0 \<Longrightarrow> limit fl \<le> int (length (var_packs st)) + 1 \<Longrightarrow>
   filter_loop fl query installed (p # ps) st = loop_add fl installed p st"
  by (simp add: filter_loop_keep Let_def)

lemma filter_loop_go:
  "kept fl query p \<Longrightarrow> \<not> (limit fl > 0 \<and> limit fl \<le> int (length (var_packs st)) + 1) \<Longrightarrow>
   filter_loop fl query installed (p # ps) st =
     filter_loop fl query installed ps (loop_add fl installed p st)"
  by (auto simp add: filter_loop_keep Let_def)

text \<open>
  The slice the loop builds: the kept hits in the order of the list, cut at \<open>limit\<close>
  entries when \<open>limit\<close> is positive.
\<close>

lemma filter_loop_packs:
  assumes "limit fl > 0 \<longrightarrow> int (length (var_packs st)) < limit fl"
  shows "var_packs (filter_loop fl query installed xs st) =
           var_packs st @
           (if limit fl > 0
            then take (nat (limit fl) - length (var_packs st)) (filter (kept fl query) xs)
            else filter (kept fl query) xs)"
  using assms
proof (induction xs arbitrary: st)
  case Nil
  then show ?case by simp
next
  case (Cons p ps)
  show ?case
  proof (cases "kept fl query p")
    case False
    then show ?thesis using Cons by (simp add: filter_loop_skip)
  next
    case True
    let ?st' = "loop_add fl installed p st"
    show ?thesis
    proof (cases "limit fl > 0 \<and> limit fl \<le> int (length (var_packs st)) + 1")
      case stop: True
      with Cons.prems have "nat (limit fl) - length (var_packs st) = Suc 0" by auto
      with stop True show ?thesis by (simp add: filter_loop_stop)
    next
      case go: False
      then have pre: "limit fl > 0 \<longrightarrow> int (length (var_packs ?st')) < limit fl" by auto
      have step: "filter_loop fl query installed (p # ps) st = filter_loop fl query installed ps ?st'"
        using True go by (rule filter_loop_go)
      show ?thesis
      proof (cases "limit fl > 0")
        case pos: True
        with go have "nat (limit fl) - length (var_packs st) =
                Suc (nat (limit fl) - length (var_packs ?st'))" by auto
        with pos True Cons.IH [OF pre] step show ?thesis by simp
      next
        case False
        with True Cons.IH [OF pre] step show ?thesis by simp
      qed
    qed
  qed
qed

lemma filter_rank_packs:
  "var_packs (filter_rank srt installed fl query matches) =
     (if limit fl > 0
      then take (nat (limit fl)) (filter (kept fl query) (sort_matches srt fl matches))
      else filter (kept fl query) (sort_matches srt fl matches))"
  unfolding filter_rank_def
  by (subst filter_loop_packs) (simp_all add: loop_init_def)

lemma filter_loop_index:
  assumes "var_i st = int (length (var_packs st))"
    and "map row_index (var_w st) = [1..int (length (var_packs st))]"
  shows "map row_index (var_w (filter_loop fl query installed xs st)) =
           [1..int (length (var_packs (filter_loop fl query installed xs st)))]"
  using assms
proof (induction xs arbitrary: st)
  case Nil
  then show ?case by simp
next
  case (Cons p ps)
  let ?st' = "loop_add fl installed p st"
  have i': "var_i ?st' = int (length (var_packs ?st'))"
    using Cons.prems(1) by simp
  have w': "map row_index (var_w ?st') = [1..int (length (var_packs ?st'))]"
    using Cons.prems by (simp add: upto_rec2)
  show ?case
  proof (cases "kept fl query p")
    case False
    then show ?thesis using Cons by (simp add: filter_loop_skip)
  next
    case True
    show ?thesis
    proof (cases "limit fl > 0 \<and> limit fl \<le> int (length (var_packs st)) + 1")
      case stop: True
      then have "filter_loop fl query installed (p # ps) st = ?st'"
        using True by (simp add: filter_loop_stop)
      with w' show ?thesis by simp
    next
      case go: False
      with True have "filter_loop fl query installed (p # ps) st =
          filter_loop fl query installed ps ?st'"
        by (rule filter_loop_go)
      with Cons.IH [OF i' w'] show ?thesis by simp
    qed
  qed
qed

lemma sort_matches_mset:
  "sort_Sort_ok srt matches \<Longrightarrow> mset (sort_matches srt fl matches) = mset matches"
  by (simp add: sort_Sort_ok_def sorts_by_def sort_matches_def)

lemma sort_matches_sorted:
  "sort_Sort_ok srt matches \<Longrightarrow>
   sorted_wrt (\<lambda>a b. ranking_key fl a \<ge> ranking_key fl b) (sort_matches srt fl matches)"
  by (simp add: sort_Sort_ok_def sorts_by_def sort_matches_def ranking_key_def
      packsByImports_Less_def packsByStars_Less_def not_less)

text \<open>The insertion sort keeps the library's promise on every input.\<close>

lemma mset_insert_by: "mset (insert_by lt x ys) = add_mset x (mset ys)"
  by (induction ys) simp_all

lemma mset_insertion_sort: "mset (insertion_sort lt xs) = mset xs"
  by (induction xs) (simp_all add: mset_insert_by)

lemma set_insert_by: "set (insert_by lt x ys) = insert x (set ys)"
  by (induction ys) auto

lemma sorted_insert_by:
  fixes key :: "pack \<Rightarrow> int"
  assumes "sorted_wrt (\<lambda>a b. key a \<ge> key b) ys"
  shows "sorted_wrt (\<lambda>a b. key a \<ge> key b) (insert_by (\<lambda>a b. key a > key b) x ys)"
  using assms by (induction ys) (auto simp: set_insert_by)

lemma sorted_insertion_sort:
  fixes key :: "pack \<Rightarrow> int"
  shows "sorted_wrt (\<lambda>a b. key a \<ge> key b) (insertion_sort (\<lambda>a b. key a > key b) xs)"
  by (induction xs) (simp_all add: sorted_insert_by)

lemma insertion_sort_ok: "sort_Sort_ok insertion_sort matches"
  using sorted_insertion_sort [of Stars matches] sorted_insertion_sort [of ImportCount matches]
  by (simp add: sort_Sort_ok_def sorts_by_def mset_insertion_sort
      packsByStars_Less_def [abs_def] packsByImports_Less_def [abs_def] not_less)

lemma sample_sorted:
  "sort_matches insertion_sort default_flags sample_matches =
     [mk_pack ''foo'' ''b.io/foo'' 9 True 4,
      mk_pack ''main'' ''c.io/foo'' 8 False 5,
      mk_pack ''foolib'' ''d.io/foolib'' 6 False 2,
      mk_pack ''foo'' ''example.com/foo'' 3 False 7,
      mk_pack ''foo'' ''e.io/foo'' 1 True 1]"
  by (simp add: sort_matches_def default_flags_def sample_matches_def mk_pack_def
      packsByImports_Less_def)

lemma sample_sort_ok: "sort_Sort_ok insertion_sort sample_matches"
  by (simp add: sort_Sort_ok_def sorts_by_def sample_matches_def mk_pack_def
      packsByImports_Less_def packsByStars_Less_def)

lemma sample_kept:
  "filter (kept default_flags ''foo'') (sort_matches insertion_sort default_flags sample_matches) =
     [mk_pack ''foolib'' ''d.io/foolib'' 6 False 2, mk_pack ''foo'' ''example.com/foo'' 3 False 7]"
  by (simp add: sample_sorted) (simp add: kept_def default_flags_def mk_pack_def)

lemma sample_packs:
  "var_packs (filter_rank insertion_sort never_installed default_flags ''foo'' sample_matches) =
     [mk_pack ''foolib'' ''d.io/foolib'' 6 False 2, mk_pack ''foo'' ''example.com/foo'' 3 False 7]"
  by (simp add: filter_rank_packs sample_kept) (simp add: default_flags_def)

lemma sample_rows:
  "var_w (filter_rank insertion_sort never_installed default_flags ''foo'' sample_matches) =
     [(1, 2, 6, ''d.io/foolib'', []), (2, 7, 3, ''example.com/foo'', [])]"
  unfolding filter_rank_def sample_sorted
  by (simp add: filter_loop.simps(2) loop_init_def loop_add_def Let_def
      default_flags_def mk_pack_def never_installed_def)

section \<open>Properties of the selector and of \<open>run\<close>\<close>

lemma selector_rounds:
  "list_all (reprompts n) before \<Longrightarrow>
   selector n (before @ rest) =
     (case selector n rest of
        (sel, tr, rest') \<Rightarrow> (sel, concat (map round_events before) @ tr, rest'))"
proof (induction before)
  case Nil
  then show ?case by (simp split: prod.split)
next
  case (Cons r rs)
  then have rs: "list_all (reprompts n) rs" and r: "reprompts n r" by simp_all
  show ?case
  proof (cases r)
    case ReadErr
    then show ?thesis using Cons.IH [OF rs] by (simp split: prod.split)
  next
    case (Line input)
    with r obtain packN where "Atoi (TrimSpace input) = Some packN" "packN < 1 \<or> packN > int n"
      by (auto split: option.splits)
    with Line show ?thesis using Cons.IH [OF rs] by (simp split: prod.split)
  qed
qed

lemma selector_append:
  "selector n before = (Picked packN, tr, []) \<Longrightarrow>
   selector n (before @ after) = (Picked packN, tr, after)"
proof (induction n before arbitrary: tr rule: selector.induct)
  case (1 n)
  then show ?case by simp
next
  case (2 n rest)
  then show ?case by (auto split: prod.splits)
next
  case (3 n input rest)
  then show ?case by (auto split: prod.splits option.splits if_splits)
qed

lemma selector_Picked_range:
  "selector n input = (Picked packN, tr, rest) \<Longrightarrow> 1 \<le> packN \<and> packN \<le> int n"
proof (induction n input arbitrary: tr rule: selector.induct)
  case (1 n)
  then show ?case by simp
next
  case (2 n rest)
  then show ?case by (auto split: prod.splits)
next
  case (3 n input rest)
  then show ?case by (auto split: prod.splits option.splits if_splits)
qed

lemma selector_no_CmdRun:
  "filter is_CmdRun (fst (snd (selector n input))) = []"
proof (induction n input rule: selector.induct)
  case (1 n)
  then show ?case by (simp add: prompt_def)
next
  case (2 n rest)
  then show ?case by (auto simp: prompt_def split: prod.splits)
next
  case (3 n input rest)
  then show ?case by (auto simp: prompt_def split: prod.splits option.splits)
qed

lemma display_no_CmdRun: "filter is_CmdRun (display fl st) = []"
proof -
  have "filter is_CmdRun (map GoList xs) = []" for xs
    by (induction xs) simp_all
  then show ?thesis by (simp add: display_def)
qed

lemma rounds_no_CmdRun: "filter is_CmdRun (concat (map round_events rs)) = []"
proof (induction rs)
  case Nil
  then show ?case by simp
next
  case (Cons r rs)
  then show ?case by (cases r) (simp_all add: prompt_def split: option.splits)
qed

lemma filter_loop_rows:
  assumes "var_i st = int (length (var_packs st))"
    and "var_w st = map (row_of fl installed) (enumerate 0 (var_packs st))"
    and "go_list_calls st = (if showInstalled fl then map Path (var_packs st) else [])"
  shows "var_w (filter_loop fl query installed xs st) =
           map (row_of fl installed) (enumerate 0 (var_packs (filter_loop fl query installed xs st))) \<and>
         go_list_calls (filter_loop fl query installed xs st) =
           (if showInstalled fl then map Path (var_packs (filter_loop fl query installed xs st))
            else [])"
  using assms
proof (induction xs arbitrary: st)
  case Nil
  then show ?case by simp
next
  case (Cons p ps)
  let ?st' = "loop_add fl installed p st"
  have i': "var_i ?st' = int (length (var_packs ?st'))"
    using Cons.prems(1) by simp
  have w': "var_w ?st' = map (row_of fl installed) (enumerate 0 (var_packs ?st'))"
    using Cons.prems by (simp add: loop_add_def Let_def enumerate_append_eq row_of_def)
  have g': "go_list_calls ?st' = (if showInstalled fl then map Path (var_packs ?st') else [])"
    using Cons.prems by (simp add: loop_add_def Let_def)
  show ?case
  proof (cases "kept fl query p")
    case False
    then show ?thesis using Cons by (simp add: filter_loop_skip)
  next
    case True
    show ?thesis
    proof (cases "limit fl > 0 \<and> limit fl \<le> int (length (var_packs st)) + 1")
      case stop: True
      then have "filter_loop fl query installed (p # ps) st = ?st'"
        using True by (simp add: filter_loop_stop)
      with w' g' show ?thesis by simp
    next
      case go: False
      with True have "filter_loop fl query installed (p # ps) st =
          filter_loop fl query installed ps ?st'"
        by (rule filter_loop_go)
      with Cons.IH [OF i' w' g'] show ?thesis by simp
    qed
  qed
qed

lemma filter_rank_rows:
  "var_w (filter_rank srt installed fl query matches) =
     map (row_of fl installed) (enumerate 0 (var_packs (filter_rank srt installed fl query matches)))"
  unfolding filter_rank_def
  by (rule filter_loop_rows [THEN conjunct1]) (simp_all add: loop_init_def)

lemma filter_rank_go_list_calls:
  "go_list_calls (filter_rank srt installed fl query matches) =
     (if showInstalled fl then map Path (var_packs (filter_rank srt installed fl query matches))
      else [])"
  unfolding filter_rank_def
  by (rule filter_loop_rows [THEN conjunct2]) (simp_all add: loop_init_def)

text \<open>\<open>run\<close> once the table is printed.\<close>

lemma run_no_matches:
  assumes "arg0 fl \<noteq> []"
    and "queryGodoc (http_Get wd) (arg0 fl) = Inr matches"
    and "var_packs (filter_rank (sort_Sort wd) (go_list wd) fl (arg0 fl) matches) = []"
  shows "run fl wd =
           \<lparr>status = Return 1,
            trace = Flush [] # (if showInstalled fl then [Println ''* = installed''] else []) @
                    [Println ''No matches.'']\<rparr>"
  using assms
  by (simp add: run_def Let_def display_def filter_rank_rows filter_rank_go_list_calls)

lemma run_select_install:
  assumes "arg0 fl \<noteq> []"
    and "queryGodoc (http_Get wd) (arg0 fl) = Inr matches"
    and "st = filter_rank (sort_Sort wd) (go_list wd) fl (arg0 fl) matches"
    and "var_packs st \<noteq> []"
  shows "run fl wd =
           \<lparr>status = status (select_install wd (goflags_or_default fl) (var_packs st)),
            trace = display fl st @
                    trace (select_install wd (goflags_or_default fl) (var_packs st))\<rparr>"
  using assms by (simp add: run_def Let_def)

lemma not_CmdRun_if_filter: "filter is_CmdRun tr = [] \<Longrightarrow> CmdRun goBin args \<notin> set tr"
  by (auto simp: filter_empty_conv)

lemma installer_CmdRun:
  "LookPath wd = Some goBin \<Longrightarrow>
   filter is_CmdRun (trace (installer wd gf path rest)) = [CmdRun goBin (install_args gf path)]"
  by (simp add: installer_def Let_def split: option.splits)

lemma select_install_Picked:
  assumes "selector (length packs) (stdin wd) = (Picked packN, tr, rest)"
  shows "select_install wd gf packs =
           \<lparr>status = status (installer wd gf (Path (packs ! nat (packN - 1))) rest),
            trace = tr @ trace (installer wd gf (Path (packs ! nat (packN - 1))) rest)\<rparr>"
  using selector_Picked_range [OF assms]
  by (simp add: select_install_def assms Let_def)

lemma selector_starts_with_prompt:
  "fst (snd (selector n input)) \<noteq> [] \<and> hd (fst (snd (selector n input))) = prompt"
  by (induction n input rule: selector.induct) (auto split: prod.splits option.splits)

lemma select_install_starts_with_prompt: "hd (trace (select_install wd gf packs)) = prompt"
proof -
  obtain sel tr rest where s: "selector (length packs) (stdin wd) = (sel, tr, rest)"
    by (cases "selector (length packs) (stdin wd)") auto
  have h: "tr \<noteq> [] \<and> hd tr = prompt"
    using selector_starts_with_prompt [of "length packs" "stdin wd"] by (simp add: s)
  show ?thesis
    using h by (cases sel) (simp_all add: select_install_def s Let_def)
qed

text \<open>The index on line 135 is always in range.\<close>

lemma select_install_no_Panic: "status (select_install wd gf packs) \<noteq> Panic"
proof -
  obtain sel tr rest where s: "selector (length packs) (stdin wd) = (sel, tr, rest)"
    by (cases "selector (length packs) (stdin wd)") auto
  show ?thesis
  proof (cases sel)
    case (Picked packN)
    with s have "1 \<le> packN \<and> packN \<le> int (length packs)"
      by (auto dest: selector_Picked_range)
    with s Picked show ?thesis
      by (simp add: select_install_def Let_def installer_def split: option.splits)
  next
    case Declined
    with s show ?thesis by (simp add: select_install_def)
  next
    case Spins
    with s show ?thesis by (simp add: select_install_def)
  qed
qed

lemma run_no_Panic: "status (run fl wd) \<noteq> Panic"
  by (simp add: run_def Let_def select_install_no_Panic split: sum.splits)

lemma stringsFlag_Set_not_nil: "fst (stringsFlag_Set s) \<noteq> None"
  by (simp add: stringsFlag_Set_def split: prod.splits option.splits)

section \<open>The sample run, evaluated\<close>

lemma sample_goflags_Set:
  "stringsFlag_Set ''-d  \"-x y\"'' = (Some [''-d'', ''-x y''], None)"
  by (simp add: stringsFlag_Set_def splitQuotedFields_def split_loop.simps isSpaceByte_def)

lemma sample_goflags_Set_empty: "stringsFlag_Set [] = (Some [], None)"
  by (simp add: stringsFlag_Set_def splitQuotedFields_def split_loop.simps)

lemmas json_eval = json_key_def key_matches_def key_folds_def lookup_field_def pack_fields_def
  zero_pack_def fits_int_def to_lower_def decode_string_def decode_bool_def decode_int_def
  decode_float64_def

lemmas read_eval = TrimSpace_def is_space1_def is_space2_def is_space3_def digit_value_def
  signed_value_def

lemma decode_pack_json:
  "fits_int (ImportCount p) \<Longrightarrow> fits_int (Stars p) \<Longrightarrow> decode_pack (pack_json p) = Inr p"
  by (simp add: pack_json_def json_eval)

lemma sample_query:
  "queryGodoc (http_Get (sample_world input)) ''foo'' = Inr sample_matches"
  by (simp add: queryGodoc_def sample_world_def ok_response_def sample_matches_def
      decode_pack_json mk_pack_def fits_int_def to_lower_def)

lemma sample_displayed:
  "var_packs (filter_rank (sort_Sort (sample_world input)) (go_list (sample_world input))
      default_flags ''foo'' sample_matches) =
     [mk_pack ''foolib'' ''d.io/foolib'' 6 False 2, mk_pack ''foo'' ''example.com/foo'' 3 False 7]"
  by (simp add: sample_world_def sample_packs)

lemma sample_selector:
  "selector 2 [Line ''0\<newline>'', ReadErr, Line '' 5 \<newline>'', Line ''2\<newline>'', Line ''no\<newline>''] =
    (Picked 2,
     [prompt, ReadStdin (Line ''0\<newline>''), Println ''No entry for 0'',
      prompt, ReadStdin ReadErr, Print ''error reading from stdin'',
      prompt, ReadStdin (Line '' 5 \<newline>''), Println ''No entry for 5'',
      prompt, ReadStdin (Line ''2\<newline>'')],
     [Line ''no\<newline>''])"
  by (simp add: read_eval show_int_def show_nat.simps)

lemma sample_display:
  "display default_flags
     (filter_rank insertion_sort never_installed default_flags ''foo'' sample_matches) =
     [Flush [(1, 2, 6, ''d.io/foolib'', []), (2, 7, 3, ''example.com/foo'', [])]]"
proof -
  have "showInstalled default_flags = False" by (simp add: default_flags_def)
  then show ?thesis by (simp add: display_def sample_rows filter_rank_go_list_calls)
qed

lemma sample_goflags: "goflags_or_default default_flags = [''-u'', ''-v'']"
  by (simp add: goflags_or_default_def default_flags_def)

lemma sample_run_select_install:
  "run default_flags (sample_world input) =
     \<lparr>status = status (select_install (sample_world input) [''-u'', ''-v'']
        [mk_pack ''foolib'' ''d.io/foolib'' 6 False 2, mk_pack ''foo'' ''example.com/foo'' 3 False 7]),
      trace = Flush [(1, 2, 6, ''d.io/foolib'', []), (2, 7, 3, ''example.com/foo'', [])] #
        trace (select_install (sample_world input) [''-u'', ''-v'']
        [mk_pack ''foolib'' ''d.io/foolib'' 6 False 2, mk_pack ''foo'' ''example.com/foo'' 3 False 7])\<rparr>"
proof -
  have a: "arg0 default_flags = ''foo''" by (simp add: default_flags_def)
  have w: "sort_Sort (sample_world input) = insertion_sort"
    "go_list (sample_world input) = never_installed"
    by (simp_all add: sample_world_def)
  have "run default_flags (sample_world input) =
      \<lparr>status = status (select_install (sample_world input) (goflags_or_default default_flags)
         (var_packs (filter_rank insertion_sort never_installed default_flags ''foo'' sample_matches))),
       trace = display default_flags
           (filter_rank insertion_sort never_installed default_flags ''foo'' sample_matches) @
         trace (select_install (sample_world input) (goflags_or_default default_flags)
         (var_packs (filter_rank insertion_sort never_installed default_flags ''foo'' sample_matches)))\<rparr>"
    by (rule run_select_install [where matches = sample_matches])
      (simp_all add: a w sample_query sample_packs)
  then show ?thesis by (simp add: sample_display sample_goflags sample_packs)
qed

lemma sample_run:
  "run default_flags (sample_world [Line ''0\<newline>'', Line ''2\<newline>'', Line ''no\<newline>'']) =
    \<lparr>status = Return 0,
     trace = [Flush [(1, 2, 6, ''d.io/foolib'', []), (2, 7, 3, ''example.com/foo'', [])],
      prompt, ReadStdin (Line ''0\<newline>''), Println ''No entry for 0'',
      prompt, ReadStdin (Line ''2\<newline>''),
      Println ''Installing example.com/foo'',
      Println ''Install command: /usr/bin/go get -u -v example.com/foo'',
      Println ''Press enter to continue...'',
      ReadStdin (Line ''no\<newline>''),
      CmdRun ''/usr/bin/go'' [''get'', ''-u'', ''-v'', ''example.com/foo'']]\<rparr>"
  unfolding sample_run_select_install
  by (simp add: select_install_def read_eval show_int_def show_nat.simps installer_def
        sample_world_def mk_pack_def install_args_def Let_def)

lemma sample_install:
  "installer (sample_world input) [''-u'', ''-v''] ''example.com/foo'' rest =
     \<lparr>status = Return 0,
      trace = [Println ''Installing example.com/foo'',
               Println ''Install command: /usr/bin/go get -u -v example.com/foo'',
               Println ''Press enter to continue...'',
               ReadStdin (fst (ReadString rest)),
               CmdRun ''/usr/bin/go'' [''get'', ''-u'', ''-v'', ''example.com/foo'']]\<rparr>"
  by (simp add: installer_def sample_world_def install_args_def Let_def)

lemma sample_nothing_kept:
  "var_packs (filter_rank (sort_Sort (sample_world input)) (go_list (sample_world input))
     (default_flags\<lparr>minStars := 100\<rparr>) (arg0 (default_flags\<lparr>minStars := 100\<rparr>)) sample_matches) = []"
proof -
  have s: "sort_matches insertion_sort (default_flags\<lparr>minStars := 100\<rparr>) sample_matches =
      sort_matches insertion_sort default_flags sample_matches"
    by (simp add: sort_matches_def)
  have w: "sort_Sort (sample_world input) = insertion_sort" by (simp add: sample_world_def)
  show ?thesis
    by (simp add: filter_rank_packs w s sample_sorted)
      (simp add: kept_def default_flags_def mk_pack_def)
qed

section \<open>The claims about the filter\<close>

text \<open>
  Claim C1. Whatever the flags and the hits, every entry of the slice \<open>packs\<close> that the
  loop builds is one of the hits it was given and satisfies the five predicates of
  section 4.2: forks are included only on request, the name is \<open>main\<close> exactly when
  applications are wanted, the stars and the imports reach their minimum, and the path
  contains the search term when that is required. So no hit that violates a predicate
  is in the output.
\<close>

theorem C1_output_satisfies_predicates:
  "\<forall>p \<in> set (var_packs (filter_rank srt installed fl query matches)).
     p \<in> set (sort_matches srt fl matches) \<and> all_predicates fl query p"
proof
  fix p
  assume "p \<in> set (var_packs (filter_rank srt installed fl query matches))"
  then have "p \<in> set (filter (kept fl query) (sort_matches srt fl matches))"
    by (auto simp: filter_rank_packs split: if_splits dest: in_set_takeD)
  then show "p \<in> set (sort_matches srt fl matches) \<and> all_predicates fl query p"
    by (simp add: kept_iff_all_predicates)
qed

theorem C1_output_satisfies_predicates_witness:
  "var_packs (filter_rank insertion_sort never_installed default_flags ''foo'' sample_matches) =
     [mk_pack ''foolib'' ''d.io/foolib'' 6 False 2, mk_pack ''foo'' ''example.com/foo'' 3 False 7] \<and>
   list_all (all_predicates default_flags ''foo'')
     (var_packs (filter_rank insertion_sort never_installed default_flags ''foo'' sample_matches))"
  using C1_output_satisfies_predicates
    [of insertion_sort never_installed default_flags "''foo''" sample_matches]
  by (simp add: sample_packs)

text \<open>
  Claim C2. When the library's sort has done its work on the hits, the output is
  non-increasing in the ranking key: each entry's key is at least the key of every
  later entry, the key being the stars with \<open>-apps\<close> and the import count without.
\<close>

theorem C2_output_non_increasing:
  assumes "sort_Sort_ok srt matches"
  shows "sorted_wrt (\<lambda>a b. ranking_key fl a \<ge> ranking_key fl b)
           (var_packs (filter_rank srt installed fl query matches))"
  using sort_matches_sorted [OF assms, of fl]
  by (simp add: filter_rank_packs sorted_wrt_filter sorted_wrt_take)

theorem C2_output_non_increasing_witness:
  "sort_Sort_ok insertion_sort sample_matches \<and>
   map (ranking_key default_flags)
     (var_packs (filter_rank insertion_sort never_installed default_flags ''foo'' sample_matches)) =
     [6, 3] \<and>
   sorted_wrt (\<lambda>a b. ranking_key default_flags a \<ge> ranking_key default_flags b)
     (var_packs (filter_rank insertion_sort never_installed default_flags ''foo'' sample_matches))"
  using C2_output_non_increasing [OF sample_sort_ok, of default_flags never_installed "''foo''"]
  by (simp add: sample_sort_ok sample_packs) (simp add: ranking_key_def default_flags_def mk_pack_def)

text \<open>
  Claim C8. With a positive \<open>limit\<close> the output has at most \<open>limit\<close> entries. With a
  \<open>limit\<close> of zero or less nothing is cut: the output has as many entries as there are
  hits that satisfy the predicates. In both cases it is no longer than the input.
\<close>

theorem C8_output_length:
  assumes "sort_Sort_ok srt matches"
  shows "(limit fl > 0 \<longrightarrow>
            int (length (var_packs (filter_rank srt installed fl query matches))) \<le> limit fl) \<and>
         (limit fl \<le> 0 \<longrightarrow>
            length (var_packs (filter_rank srt installed fl query matches)) =
            length (filter (all_predicates fl query) matches)) \<and>
         length (var_packs (filter_rank srt installed fl query matches)) \<le> length matches"
proof -
  let ?s = "sort_matches srt fl matches"
  have m: "mset ?s = mset matches" using assms by (rule sort_matches_mset)
  have len: "length (filter P xs) = size (filter_mset P (mset xs))" for P and xs :: "pack list"
    by (metis mset_filter size_mset)
  have k: "kept fl query = all_predicates fl query"
    by (rule ext) (rule kept_iff_all_predicates)
  have n: "length (filter (kept fl query) ?s) = length (filter (all_predicates fl query) matches)"
    unfolding k len m by (rule refl)
  show ?thesis by (auto simp: filter_rank_packs n min_le_iff_disj)
qed

theorem C8_output_length_witness:
  "sort_Sort_ok insertion_sort sample_matches \<and>
   length (var_packs (filter_rank insertion_sort never_installed
     (default_flags\<lparr>limit := 1\<rparr>) ''foo'' sample_matches)) = 1 \<and>
   length (var_packs (filter_rank insertion_sort never_installed
     (default_flags\<lparr>limit := 0\<rparr>) ''foo'' sample_matches)) = 2 \<and>
   length (filter (all_predicates (default_flags\<lparr>limit := 0\<rparr>) ''foo'') sample_matches) = 2"
proof -
  have s: "sort_matches insertion_sort (default_flags\<lparr>limit := k\<rparr>) sample_matches =
      sort_matches insertion_sort default_flags sample_matches" for k
    by (simp add: sort_matches_def)
  have k: "kept (default_flags\<lparr>limit := k\<rparr>) = kept default_flags" for k
    by (simp add: kept_def [abs_def])
  have one: "length (var_packs (filter_rank insertion_sort never_installed
      (default_flags\<lparr>limit := 1\<rparr>) ''foo'' sample_matches)) = 1"
    by (simp add: filter_rank_packs s k sample_kept)
  have zero: "length (var_packs (filter_rank insertion_sort never_installed
      (default_flags\<lparr>limit := 0\<rparr>) ''foo'' sample_matches)) = 2"
    by (simp add: filter_rank_packs s k sample_kept)
  show ?thesis
    using C8_output_length [OF sample_sort_ok, of "default_flags\<lparr>limit := 0\<rparr>"
        never_installed "''foo''"]
    by (simp add: sample_sort_ok one zero)
qed

text \<open>
  Claim C9. The display indices written to the table, in order, are the integers from
  1 to the number of output entries: none is missing and none is repeated.
\<close>

theorem C9_display_indices:
  "map row_index (var_w (filter_rank srt installed fl query matches)) =
     [1..int (length (var_packs (filter_rank srt installed fl query matches)))]"
  unfolding filter_rank_def
  by (rule filter_loop_index) (simp_all add: loop_init_def)

theorem C9_display_indices_witness:
  "map row_index
     (var_w (filter_rank insertion_sort never_installed default_flags ''foo'' sample_matches)) =
     [1, 2]"
  using C9_display_indices [of insertion_sort never_installed default_flags "''foo''" sample_matches]
  by (simp add: sample_packs upto_rec1)

section \<open>The claims about the selector and the installer\<close>

text \<open>
  Claim C7. When the search succeeded and no hit passes the filter, \<open>run\<close> prints the
  empty table (and the legend under \<open>-installed\<close>), then \<open>No matches.\<close> once, and returns 1.
  It prints no prompt, reads nothing from standard input and runs no install command.
\<close>

theorem C7_no_matches:
  assumes "arg0 fl \<noteq> []"
    and "queryGodoc (http_Get wd) (arg0 fl) = Inr matches"
    and "var_packs (filter_rank (sort_Sort wd) (go_list wd) fl (arg0 fl) matches) = []"
  shows "status (run fl wd) = Return 1 \<and>
         trace (run fl wd) =
           Flush [] # (if showInstalled fl then [Println ''* = installed''] else []) @
           [Println ''No matches.''] \<and>
         count_list (trace (run fl wd)) (Println ''No matches.'') = 1 \<and>
         prompt \<notin> set (trace (run fl wd)) \<and>
         (\<forall>r. ReadStdin r \<notin> set (trace (run fl wd))) \<and>
         (\<forall>goBin args. CmdRun goBin args \<notin> set (trace (run fl wd)))"
  unfolding run_no_matches [OF assms]
  by (simp add: prompt_def)

theorem C7_no_matches_witness:
  "status (run (default_flags\<lparr>minStars := 100\<rparr>) (sample_world [Line ''1\<newline>''])) = Return 1 \<and>
   trace (run (default_flags\<lparr>minStars := 100\<rparr>) (sample_world [Line ''1\<newline>''])) =
     [Flush [], Println ''No matches.'']"
proof -
  have a: "arg0 (default_flags\<lparr>minStars := 100\<rparr>) = ''foo''"
    "showInstalled (default_flags\<lparr>minStars := 100\<rparr>) = False"
    by (simp_all add: default_flags_def)
  have q: "queryGodoc (http_Get (sample_world [Line ''1\<newline>'']))
      (arg0 (default_flags\<lparr>minStars := 100\<rparr>)) = Inr sample_matches"
    by (simp add: a sample_query)
  show ?thesis
    using C7_no_matches [OF _ q sample_nothing_kept]
    by (simp add: a)
qed

text \<open>
  Claim C5. Once entries are displayed, let the selector come to a line (after any number
  of rounds that made it ask again) that, trimmed of white space, is not an integer for
  \<open>strconv.Atoi\<close>. Then \<open>run\<close> returns 0, the last thing it does is read that line, and
  no install command is run.
\<close>

theorem C5_unparseable_line_declines:
  assumes "arg0 fl \<noteq> []"
    and "queryGodoc (http_Get wd) (arg0 fl) = Inr matches"
    and "st = filter_rank (sort_Sort wd) (go_list wd) fl (arg0 fl) matches"
    and "var_packs st \<noteq> []"
    and "stdin wd = before @ Line input # after"
    and "list_all (reprompts (length (var_packs st))) before"
    and "Atoi (TrimSpace input) = None"
  shows "status (run fl wd) = Return 0 \<and>
         trace (run fl wd) =
           display fl st @ concat (map round_events before) @ [prompt, ReadStdin (Line input)] \<and>
         (\<forall>goBin args. CmdRun goBin args \<notin> set (trace (run fl wd)))"
proof -
  have sel: "selector (length (var_packs st)) (stdin wd) =
      (Declined, concat (map round_events before) @ [prompt, ReadStdin (Line input)], after)"
    unfolding assms(5) selector_rounds [OF assms(6)] using assms(7) by simp
  have si: "select_install wd (goflags_or_default fl) (var_packs st) =
      \<lparr>status = Return 0,
       trace = concat (map round_events before) @ [prompt, ReadStdin (Line input)]\<rparr>"
    by (simp add: select_install_def sel)
  have r: "run fl wd =
      \<lparr>status = Return 0,
       trace = display fl st @ concat (map round_events before) @
         [prompt, ReadStdin (Line input)]\<rparr>"
    unfolding run_select_install [OF assms(1-4)] si by simp
  have "filter is_CmdRun (trace (run fl wd)) = []"
    unfolding r by (simp add: display_no_CmdRun rounds_no_CmdRun prompt_def)
  then have "\<forall>goBin args. CmdRun goBin args \<notin> set (trace (run fl wd))"
    by (blast dest: not_CmdRun_if_filter)
  moreover have "status (run fl wd) = Return 0"
    and "trace (run fl wd) =
      display fl st @ concat (map round_events before) @ [prompt, ReadStdin (Line input)]"
    unfolding r by simp_all
  ultimately show ?thesis by blast
qed

theorem C5_unparseable_line_declines_witness:
  "Atoi (TrimSpace ''abc\<newline>'') = None \<and>
   list_all (reprompts 2) [Line ''0\<newline>''] \<and>
   status (run default_flags (sample_world [Line ''0\<newline>'', Line ''abc\<newline>'', Line ''1\<newline>''])) = Return 0 \<and>
   trace (run default_flags (sample_world [Line ''0\<newline>'', Line ''abc\<newline>'', Line ''1\<newline>''])) =
     [Flush [(1, 2, 6, ''d.io/foolib'', []), (2, 7, 3, ''example.com/foo'', [])],
      prompt, ReadStdin (Line ''0\<newline>''), Println ''No entry for 0'',
      prompt, ReadStdin (Line ''abc\<newline>'')]"
proof -
  let ?wd = "sample_world [Line ''0\<newline>'', Line ''abc\<newline>'', Line ''1\<newline>'']"
  let ?st = "filter_rank (sort_Sort ?wd) (go_list ?wd) default_flags (arg0 default_flags) sample_matches"
  have a: "arg0 default_flags = ''foo''" by (simp add: default_flags_def)
  have w: "sort_Sort ?wd = insertion_sort" "go_list ?wd = never_installed"
    "stdin ?wd = [Line ''0\<newline>''] @ Line ''abc\<newline>'' # [Line ''1\<newline>'']"
    by (simp_all add: sample_world_def)
  have q: "queryGodoc (http_Get ?wd) (arg0 default_flags) = Inr sample_matches"
    by (simp add: a sample_query)
  have p: "var_packs ?st \<noteq> []" by (simp add: a w sample_packs)
  have n: "Atoi (TrimSpace ''abc\<newline>'') = None" by (simp add: read_eval)
  have b: "list_all (reprompts (length (var_packs ?st))) [Line ''0\<newline>'']"
    by (simp add: a w sample_packs read_eval)
  have b2: "reprompts 2 (Line ''0\<newline>'')" by (simp add: read_eval)
  have e: "round_events (Line ''0\<newline>'') =
      [prompt, ReadStdin (Line ''0\<newline>''), Println ''No entry for 0'']"
    by (simp add: read_eval show_int_def show_nat.simps)
  show ?thesis
    using C5_unparseable_line_declines [OF _ q refl p w(3) b n]
    by (simp add: a w n b2 e sample_display del: reprompts.simps round_events.simps)
qed

text \<open>
  Claim C6. Let the selector come to a line that \<open>strconv.Atoi\<close> reads as the integer
  \<open>packN\<close>, with \<open>N\<close> entries displayed. If \<open>1 \<le> packN \<le> N\<close> the loop ends: the entry
  taken is the one whose row in the table has the number \<open>packN\<close>, the installer is run on
  its path, and that path is the last argument of the install command. Otherwise \<open>run\<close>
  prints \<open>No entry for\<close> with \<open>packN\<close> and goes on as the selector does on the rest of
  the input, which starts with the prompt again.
\<close>

theorem C6_selector_range:
  assumes "arg0 fl \<noteq> []"
    and "queryGodoc (http_Get wd) (arg0 fl) = Inr matches"
    and "st = filter_rank (sort_Sort wd) (go_list wd) fl (arg0 fl) matches"
    and "var_packs st \<noteq> []"
    and "stdin wd = before @ Line input # after"
    and "list_all (reprompts (length (var_packs st))) before"
    and "Atoi (TrimSpace input) = Some packN"
    and "p = var_packs st ! nat (packN - 1)"
    and "gf = goflags_or_default fl"
  shows "if 1 \<le> packN \<and> packN \<le> int (length (var_packs st))
         then run fl wd =
                \<lparr>status = status (installer wd gf (Path p) after),
                 trace = display fl st @ concat (map round_events before) @
                         [prompt, ReadStdin (Line input)] @
                         trace (installer wd gf (Path p) after)\<rparr> \<and>
              var_w st ! nat (packN - 1) =
                (packN, Stars p, ImportCount p,
                 (if showInstalled fl \<and> go_list wd (Path p) then ''*'' @ Path p else Path p),
                 Synopsis p) \<and>
              (case LookPath wd of
                 None \<Rightarrow> filter is_CmdRun (trace (run fl wd)) = []
               | Some goBin \<Rightarrow>
                   filter is_CmdRun (trace (run fl wd)) =
                     [CmdRun goBin ([''get''] @ gf @ [Path p])])
         else run fl wd =
                \<lparr>status = status (select_install (wd\<lparr>stdin := after\<rparr>) gf (var_packs st)),
                 trace = display fl st @ concat (map round_events before) @
                         [prompt, ReadStdin (Line input),
                          Println (''No entry for '' @ show_int packN)] @
                         trace (select_install (wd\<lparr>stdin := after\<rparr>) gf (var_packs st))\<rparr> \<and>
              hd (trace (select_install (wd\<lparr>stdin := after\<rparr>) gf (var_packs st))) = prompt"
proof (cases "1 \<le> packN \<and> packN \<le> int (length (var_packs st))")
  case True
  let ?ins = "installer wd gf (Path p) after"
  have sel: "selector (length (var_packs st)) (stdin wd) =
      (Picked packN, concat (map round_events before) @ [prompt, ReadStdin (Line input)], after)"
    unfolding assms(5) selector_rounds [OF assms(6)] using assms(7) True by simp
  have r: "run fl wd =
      \<lparr>status = status ?ins,
       trace = display fl st @ concat (map round_events before) @
         [prompt, ReadStdin (Line input)] @ trace ?ins\<rparr>"
    unfolding run_select_install [OF assms(1-4)]
      select_install_Picked [OF sel, of "goflags_or_default fl"] assms(8,9)
    by simp
  have k: "nat (packN - 1) < length (var_packs st)" using True by auto
  have "var_w st ! nat (packN - 1) =
      row_of fl (go_list wd) (nat (packN - 1), var_packs st ! nat (packN - 1))"
    unfolding assms(3) filter_rank_rows using k [unfolded assms(3)]
    by (simp add: nth_enumerate_eq)
  then have row: "var_w st ! nat (packN - 1) =
      (packN, Stars p, ImportCount p,
       (if showInstalled fl \<and> go_list wd (Path p) then ''*'' @ Path p else Path p),
       Synopsis p)"
    using True by (simp add: row_of_def assms(8))
  have c: "filter is_CmdRun (trace (run fl wd)) = filter is_CmdRun (trace ?ins)"
    unfolding r by (simp add: display_no_CmdRun rounds_no_CmdRun prompt_def)
  have cmd: "case LookPath wd of
       None \<Rightarrow> filter is_CmdRun (trace (run fl wd)) = []
     | Some goBin \<Rightarrow>
         filter is_CmdRun (trace (run fl wd)) = [CmdRun goBin ([''get''] @ gf @ [Path p])]"
    unfolding c by (simp add: installer_def install_args_def Let_def split: option.splits)
  show ?thesis unfolding if_P [OF True] using r row cmd by blast
next
  case False
  let ?wd' = "wd\<lparr>stdin := after\<rparr>"
  obtain sel tr rest where s: "selector (length (var_packs st)) after = (sel, tr, rest)"
    by (cases "selector (length (var_packs st)) after") auto
  have sel: "selector (length (var_packs st)) (stdin wd) =
      (sel, concat (map round_events before) @
            [prompt, ReadStdin (Line input), Println (''No entry for '' @ show_int packN)] @ tr,
       rest)"
    unfolding assms(5) selector_rounds [OF assms(6)] using assms(7) False s by auto
  have i: "installer ?wd' = installer wd"
    by (rule ext)+ (simp add: installer_def Let_def split: option.splits)
  have si: "select_install wd gf (var_packs st) =
      \<lparr>status = status (select_install ?wd' gf (var_packs st)),
       trace = concat (map round_events before) @
         [prompt, ReadStdin (Line input), Println (''No entry for '' @ show_int packN)] @
         trace (select_install ?wd' gf (var_packs st))\<rparr>"
    by (cases sel) (simp_all add: select_install_def sel s i Let_def)
  have r: "run fl wd =
      \<lparr>status = status (select_install ?wd' gf (var_packs st)),
       trace = display fl st @ concat (map round_events before) @
         [prompt, ReadStdin (Line input), Println (''No entry for '' @ show_int packN)] @
         trace (select_install ?wd' gf (var_packs st))\<rparr>"
    unfolding run_select_install [OF assms(1-4)] assms(9) [symmetric] si by simp
  have h: "hd (trace (select_install ?wd' gf (var_packs st))) = prompt"
    by (rule select_install_starts_with_prompt)
  show ?thesis unfolding if_not_P [OF False] using r h by blast
qed

theorem C6_selector_range_witness:
  "Atoi (TrimSpace ''5\<newline>'') = Some 5 \<and> Atoi (TrimSpace ''2\<newline>'') = Some 2 \<and>
   list_all (reprompts 2) [Line ''5\<newline>''] \<and>
   trace (run default_flags (sample_world [Line ''5\<newline>'', Line ''2\<newline>''])) =
     [Flush [(1, 2, 6, ''d.io/foolib'', []), (2, 7, 3, ''example.com/foo'', [])],
      prompt, ReadStdin (Line ''5\<newline>''), Println ''No entry for 5''] @
     trace (select_install (sample_world [Line ''5\<newline>'', Line ''2\<newline>'']\<lparr>stdin := [Line ''2\<newline>'']\<rparr>)
        [''-u'', ''-v'']
        [mk_pack ''foolib'' ''d.io/foolib'' 6 False 2, mk_pack ''foo'' ''example.com/foo'' 3 False 7]) \<and>
   run default_flags (sample_world [Line ''5\<newline>'', Line ''2\<newline>'']) =
     \<lparr>status = Return 0,
      trace =
        [Flush [(1, 2, 6, ''d.io/foolib'', []), (2, 7, 3, ''example.com/foo'', [])],
         prompt, ReadStdin (Line ''5\<newline>''), Println ''No entry for 5'',
         prompt, ReadStdin (Line ''2\<newline>''),
         Println ''Installing example.com/foo'',
         Println ''Install command: /usr/bin/go get -u -v example.com/foo'',
         Println ''Press enter to continue...'',
         ReadStdin ReadErr,
         CmdRun ''/usr/bin/go'' [''get'', ''-u'', ''-v'', ''example.com/foo'']]\<rparr> \<and>
   var_w (filter_rank insertion_sort never_installed default_flags ''foo'' sample_matches) ! 1 =
     (2, 7, 3, ''example.com/foo'', [])"
proof -
  let ?wd = "sample_world [Line ''5\<newline>'', Line ''2\<newline>'']"
  let ?st = "filter_rank insertion_sort never_installed default_flags (arg0 default_flags) sample_matches"
  have a: "arg0 default_flags = ''foo''" "showInstalled default_flags = False"
    by (simp_all add: default_flags_def)
  have w: "sort_Sort ?wd = insertion_sort" "go_list ?wd = never_installed"
    "LookPath ?wd = Some ''/usr/bin/go''"
    by (simp_all add: sample_world_def)
  have in1: "stdin ?wd = [] @ Line ''5\<newline>'' # [Line ''2\<newline>'']"
    and in2: "stdin ?wd = [Line ''5\<newline>''] @ Line ''2\<newline>'' # []"
    by (simp_all add: sample_world_def)
  have q: "queryGodoc (http_Get ?wd) (arg0 default_flags) = Inr sample_matches"
    by (simp add: a sample_query)
  have st: "?st = filter_rank (sort_Sort ?wd) (go_list ?wd) default_flags (arg0 default_flags)
      sample_matches"
    by (simp add: w)
  have packs: "var_packs ?st =
      [mk_pack ''foolib'' ''d.io/foolib'' 6 False 2, mk_pack ''foo'' ''example.com/foo'' 3 False 7]"
    by (simp add: a sample_packs)
  have p: "var_packs ?st \<noteq> []" by (simp add: packs)
  have l: "length (var_packs ?st) = 2" by (simp add: packs)
  have n5: "Atoi (TrimSpace ''5\<newline>'') = Some 5" and n2: "Atoi (TrimSpace ''2\<newline>'') = Some 2"
    by (simp_all add: read_eval)
  have b0: "list_all (reprompts (length (var_packs ?st))) []" by simp
  have r5: "reprompts 2 (Line ''5\<newline>'')" by (simp add: n5)
  have b1: "list_all (reprompts (length (var_packs ?st))) [Line ''5\<newline>'']"
    unfolding l using r5 by simp
  have e5: "round_events (Line ''5\<newline>'') =
      [prompt, ReadStdin (Line ''5\<newline>''), Println ''No entry for 5'']"
    by (simp add: n5 show_int_def show_nat.simps)
  have s5: "show_int 5 = ''5''" by (simp add: show_int_def show_nat.simps)
  have d: "display default_flags ?st =
      [Flush [(1, 2, 6, ''d.io/foolib'', []), (2, 7, 3, ''example.com/foo'', [])]]"
    by (simp add: a sample_display)
  have path: "Path (var_packs ?st ! nat (2 - 1)) = ''example.com/foo''"
    by (simp add: packs mk_pack_def)
  have rest: "Stars (var_packs ?st ! nat (2 - 1)) = 7"
    "ImportCount (var_packs ?st ! nat (2 - 1)) = 3" "Synopsis (var_packs ?st ! nat (2 - 1)) = []"
    by (simp_all add: packs mk_pack_def)
  note out = C6_selector_range [OF _ q st p in1 b0 n5 refl refl, unfolded l d sample_goflags packs]
  note inr = C6_selector_range [OF _ q st p in2 b1 n2 refl refl,
      unfolded path rest l d sample_goflags sample_install w(3)]
  show ?thesis
    using out inr
    by (simp add: a n5 n2 r5 e5 s5 del: reprompts.simps round_events.simps)
qed

text \<open>
  Claim C3. When an entry is chosen and \<open>go\<close> is found, \<open>run\<close> runs exactly one install
  command. Its arguments are \<open>get\<close>, then the pass-through arguments, then the path of
  the chosen entry; the pass-through arguments are \<open>-u -v\<close> when \<open>-goflags\<close> was not given.
  The command line printed before is the same, joined by spaces.
\<close>

theorem C3_install_command:
  assumes "arg0 fl \<noteq> []"
    and "queryGodoc (http_Get wd) (arg0 fl) = Inr matches"
    and "st = filter_rank (sort_Sort wd) (go_list wd) fl (arg0 fl) matches"
    and "var_packs st \<noteq> []"
    and "selector (length (var_packs st)) (stdin wd) = (Picked packN, tr, rest)"
    and "LookPath wd = Some goBin"
    and "args = [''get''] @ (case goflags fl of None \<Rightarrow> [''-u'', ''-v''] | Some g \<Rightarrow> g) @
                [Path (var_packs st ! nat (packN - 1))]"
  shows "filter is_CmdRun (trace (run fl wd)) = [CmdRun goBin args] \<and>
         Println (''Install command: '' @ goBin @ '' '' @ Join args '' '') \<in> set (trace (run fl wd))"
proof -
  let ?path = "Path (var_packs st ! nat (packN - 1))"
  have args: "args = install_args (goflags_or_default fl) ?path"
    by (simp add: assms(7) install_args_def goflags_or_default_def)
  have tr: "filter is_CmdRun tr = []"
    using selector_no_CmdRun [of "length (var_packs st)" "stdin wd"] by (simp add: assms(5))
  have r: "trace (run fl wd) =
      display fl st @ tr @ trace (installer wd (goflags_or_default fl) ?path rest)"
    unfolding run_select_install [OF assms(1-4)] select_install_Picked [OF assms(5)] by simp
  have p: "Println (''Install command: '' @ goBin @ '' '' @ Join args '' '') \<in>
      set (trace (installer wd (goflags_or_default fl) ?path rest))"
    by (simp add: installer_def Let_def assms(6) args split: option.splits)
  show ?thesis
    unfolding r using p
    by (simp add: display_no_CmdRun tr installer_CmdRun [OF assms(6)] args)
qed

theorem C3_install_command_witness:
  "selector 2 [Line ''2\<newline>''] = (Picked 2, [prompt, ReadStdin (Line ''2\<newline>'')], []) \<and>
   filter is_CmdRun (trace (run default_flags (sample_world [Line ''2\<newline>'']))) =
     [CmdRun ''/usr/bin/go'' [''get'', ''-u'', ''-v'', ''example.com/foo'']] \<and>
   Println ''Install command: /usr/bin/go get -u -v example.com/foo'' \<in>
     set (trace (run default_flags (sample_world [Line ''2\<newline>''])))"
proof -
  let ?wd = "sample_world [Line ''2\<newline>'']"
  let ?st = "filter_rank (sort_Sort ?wd) (go_list ?wd) default_flags (arg0 default_flags) sample_matches"
  have a: "arg0 default_flags = ''foo''" "goflags default_flags = None"
    by (simp_all add: default_flags_def)
  have w: "sort_Sort ?wd = insertion_sort" "go_list ?wd = never_installed"
    "stdin ?wd = [Line ''2\<newline>'']" "LookPath ?wd = Some ''/usr/bin/go''"
    by (simp_all add: sample_world_def)
  have q: "queryGodoc (http_Get ?wd) (arg0 default_flags) = Inr sample_matches"
    by (simp add: a sample_query)
  have p: "var_packs ?st \<noteq> []" by (simp add: a w sample_packs)
  have s2: "selector 2 [Line ''2\<newline>''] = (Picked 2, [prompt, ReadStdin (Line ''2\<newline>'')], [])"
    by (simp add: read_eval)
  have l: "length (var_packs ?st) = 2" by (simp add: a w sample_packs)
  have s: "selector (length (var_packs ?st)) (stdin ?wd) =
      (Picked 2, [prompt, ReadStdin (Line ''2\<newline>'')], [])"
    unfolding l w(3) by (rule s2)
  have path: "Path (var_packs ?st ! nat (2 - 1)) = ''example.com/foo''"
    by (simp add: a w sample_packs mk_pack_def)
  note th = C3_install_command [OF _ q refl p s w(4) refl, unfolded path]
  show ?thesis
    using th by (simp add: a s2 del: selector.simps)
qed

text \<open>
  Claim C10. Let the selector accept an entry on the input \<open>before\<close>, and let \<open>go\<close> be
  found. Whatever follows on standard input (nothing at all, so that the read fails at
  the end of the input; a failed read; an empty line; any other line), \<open>run\<close> reads once
  after \<open>Press enter to continue...\<close> and then runs the install command. What it read
  changes neither the command nor the exit status, which is 0 when the command succeeds
  and 1 when it fails.
\<close>

theorem C10_confirmation_ignored:
  assumes "arg0 fl \<noteq> []"
    and "queryGodoc (http_Get wd) (arg0 fl) = Inr matches"
    and "st = filter_rank (sort_Sort wd) (go_list wd) fl (arg0 fl) matches"
    and "var_packs st \<noteq> []"
    and "selector (length (var_packs st)) before = (Picked packN, tr, [])"
    and "stdin wd = before @ confirmation"
    and "LookPath wd = Some goBin"
    and "importPath = Path (var_packs st ! nat (packN - 1))"
    and "args = install_args (goflags_or_default fl) importPath"
  shows "trace (run fl wd) =
           display fl st @ tr @
           [Println (''Installing '' @ importPath),
            Println (''Install command: '' @ goBin @ '' '' @ Join args '' ''),
            Println ''Press enter to continue...'',
            ReadStdin (fst (ReadString confirmation)),
            CmdRun goBin args] @
           (case cmd_Run wd goBin args of None \<Rightarrow> [] | Some err \<Rightarrow> [PrintlnError err]) \<and>
         status (run fl wd) =
           (case cmd_Run wd goBin args of None \<Rightarrow> Return 0 | Some err \<Rightarrow> Return 1)"
proof -
  have sel: "selector (length (var_packs st)) (stdin wd) = (Picked packN, tr, confirmation)"
    unfolding assms(6) using assms(5) by (rule selector_append)
  have r: "run fl wd =
      \<lparr>status = status (installer wd (goflags_or_default fl) importPath confirmation),
       trace = display fl st @ tr @
         trace (installer wd (goflags_or_default fl) importPath confirmation)\<rparr>"
    unfolding run_select_install [OF assms(1-4)] select_install_Picked [OF sel] assms(8)
    by simp
  show ?thesis
    unfolding r
    by (simp add: installer_def assms(7) assms(9) [symmetric] Let_def split: option.splits)
qed

theorem C10_confirmation_ignored_witness:
  "selector 2 [Line ''2\<newline>''] = (Picked 2, [prompt, ReadStdin (Line ''2\<newline>'')], []) \<and>
   status (run default_flags (sample_world ([Line ''2\<newline>''] @ []))) = Return 0 \<and>
   status (run default_flags (sample_world ([Line ''2\<newline>''] @ [ReadErr]))) = Return 0 \<and>
   status (run default_flags (sample_world ([Line ''2\<newline>''] @ [Line ''no\<newline>'']))) = Return 0 \<and>
   trace (run default_flags (sample_world ([Line ''2\<newline>''] @ [Line ''no\<newline>'']))) =
     [Flush [(1, 2, 6, ''d.io/foolib'', []), (2, 7, 3, ''example.com/foo'', [])],
      prompt, ReadStdin (Line ''2\<newline>''),
      Println ''Installing example.com/foo'',
      Println ''Install command: /usr/bin/go get -u -v example.com/foo'',
      Println ''Press enter to continue...'',
      ReadStdin (Line ''no\<newline>''),
      CmdRun ''/usr/bin/go'' [''get'', ''-u'', ''-v'', ''example.com/foo'']]"
proof -
  have a: "arg0 default_flags = ''foo''" by (simp add: default_flags_def)
  have w: "sort_Sort (sample_world i) = insertion_sort" "go_list (sample_world i) = never_installed"
    "stdin (sample_world i) = i" "LookPath (sample_world i) = Some ''/usr/bin/go''"
    "cmd_Run (sample_world i) = (\<lambda>goBin args. None)" for i
    by (simp_all add: sample_world_def)
  let ?st = "filter_rank insertion_sort never_installed default_flags (arg0 default_flags) sample_matches"
  have q: "queryGodoc (http_Get (sample_world i)) (arg0 default_flags) = Inr sample_matches" for i
    by (simp add: a sample_query)
  have st: "?st = filter_rank (sort_Sort (sample_world i)) (go_list (sample_world i))
      default_flags (arg0 default_flags) sample_matches" for i
    by (simp add: w)
  have p: "var_packs ?st \<noteq> []" by (simp add: a sample_packs)
  have l: "length (var_packs ?st) = 2" by (simp add: a sample_packs)
  have s2: "selector 2 [Line ''2\<newline>''] = (Picked 2, [prompt, ReadStdin (Line ''2\<newline>'')], [])"
    by (simp add: read_eval)
  have s: "selector (length (var_packs ?st)) [Line ''2\<newline>''] =
      (Picked 2, [prompt, ReadStdin (Line ''2\<newline>'')], [])"
    unfolding l by (rule s2)
  have path: "Path (var_packs ?st ! nat (2 - 1)) = ''example.com/foo''"
    by (simp add: a sample_packs mk_pack_def)
  have args: "install_args (goflags_or_default default_flags) ''example.com/foo'' =
      [''get'', ''-u'', ''-v'', ''example.com/foo'']"
    by (simp add: install_args_def sample_goflags)
  have d: "display default_flags ?st =
      [Flush [(1, 2, 6, ''d.io/foolib'', []), (2, 7, 3, ''example.com/foo'', [])]]"
    by (simp add: a sample_display)
  note th = C10_confirmation_ignored [OF _ q st p s w(3) w(4) refl refl, unfolded path args d w(5)]
  show ?thesis
    using th [of "[]"] th [of "[ReadErr]"] th [of "[Line ''no\<newline>'']"]
    by (simp add: a s2 del: selector.simps)
qed

section \<open>The claim about decoding\<close>

text \<open>
  Claim C4. The claim fails on the code. The struct tag of \<open>ImportCount\<close> has the key
  \<open>bool\<close>, not \<open>json\<close>, so \<open>encoding/json\<close> knows the field by its Go name only: no field
  answers to the key \<open>import_count\<close>, and a response of the documented shape leaves
  \<open>ImportCount\<close> at 0 whatever number the key carries. The key that is decoded into the
  field is \<open>ImportCount\<close>.
\<close>

theorem C4_import_count_not_decoded:
  "lookup_field ''import_count'' = None \<and>
   lookup_field ''ImportCount'' = Some FImportCount \<and>
   queryGodoc
     (\<lambda>q. Inr (ok_response (JObject [(''Results'', JArray [JObject
        [(''name'', JString ''foo''), (''path'', JString ''example.com/foo''),
         (''import_count'', JInt 5), (''synopsis'', JString ''''), (''fork'', JBool False),
         (''stars'', JInt 3), (''score'', JFrac 0.5)]])]))) ''foo'' =
     Inr [\<lparr>Name = ''foo'', Path = ''example.com/foo'', ImportCount = 0, Synopsis = '''',
           Fork = False, Stars = 3, Score = 0.5\<rparr>]"
  by (simp add: queryGodoc_def ok_response_def json_eval)

end
